theory Spec2Isabelle
  imports Main "HOL-Library.Char_ord" "HOL-Library.List_Lexorder"
begin

section \<open>gencodec: the marshaling-code generator of main.go\<close>

text \<open>
  The generator reads a struct type through \<^verbatim>\<open>go/types\<close>, builds an intermediate
  marshaling type (\<^verbatim>\<open>marshalerType\<close>), merges field type overrides into it, computes the
  import table and renders four methods from text templates. This theory embeds those
  functions of \<^verbatim>\<open>main.go\<close>. Strings are byte lists, as Go strings are. A call of
  \<^verbatim>\<open>fatalf\<close> (which ends the process) and a run-time panic are values of the type
  \<open>error\<close>; a function that can reach one returns \<open>error + 'a\<close>.
\<close>

subsection \<open>Types of the checked package, as the generator observes them\<close>

text \<open>
  A \<^verbatim>\<open>*types.Package\<close> is an object with identity and a name that \<^verbatim>\<open>SetName\<close> changes:
  a package reference is an address into a store of packages. The package of a named type
  may be nil (the types of the universe scope, such as \<^verbatim>\<open>error\<close>).
\<close>

type_synonym pkgref = nat

record package =
  pkg_name :: string
  pkg_path :: string

type_synonym pkgstore = "pkgref \<Rightarrow> package"

text \<open>
  The kinds of \<^verbatim>\<open>types.Type\<close>. A struct type that occurs inside a field type is kept as
  the list of its field types, which is all that \<^verbatim>\<open>walkNamedTypes\<close> reads of it. A named
  type is its package and its name.
\<close>

datatype gotype =
    Basic string
  | Array nat gotype
  | Chan gotype
  | Interface
  | MapT gotype gotype
  | Named "pkgref option" string
  | Pointer gotype
  | Signature
  | Slice gotype
  | Struct "gotype list"

text \<open>
  A \<^verbatim>\<open>*types.Var\<close> that is a struct field: what \<^verbatim>\<open>Name()\<close>, \<^verbatim>\<open>Type()\<close>, \<^verbatim>\<open>Exported()\<close>
  and \<^verbatim>\<open>Anonymous()\<close> return, and the text of \<^verbatim>\<open>fs.Position(v.Pos())\<close>.
\<close>

record govar =
  var_name :: string
  var_type :: gotype
  var_exported :: bool
  var_anonymous :: bool
  var_pos :: string

text \<open>A \<^verbatim>\<open>*types.Struct\<close>: \<^verbatim>\<open>Field(i)\<close> and \<^verbatim>\<open>Tag(i)\<close> for each index, in declaration order.\<close>

type_synonym gostruct = "(govar \<times> string) list"

text \<open>The \<^verbatim>\<open>*types.Named\<close> of the struct type the code is generated for.\<close>

record named =
  obj_name :: string
  obj_pkg :: pkgref
  underlying :: gostruct

text \<open>
  The functions of \<^verbatim>\<open>go/types\<close> and \<^verbatim>\<open>reflect\<close> that the generator calls and whose code
  is not part of it are parameters of the model: \<^verbatim>\<open>types.ConvertibleTo\<close>,
  \<^verbatim>\<open>types.AssignableTo\<close>, \<^verbatim>\<open>types.TypeString\<close> (with its package qualifier),
  \<^verbatim>\<open>reflect.StructTag.Get\<close> (tag first, key second) and \<^verbatim>\<open>strings.ToLower\<close>. The last
  one works on the characters of UTF-8 text, and the generator calls it on the first byte
  of a name, which need not be a whole character.
\<close>

record golib =
  ConvertibleTo :: "gotype \<Rightarrow> gotype \<Rightarrow> bool"
  AssignableTo :: "gotype \<Rightarrow> gotype \<Rightarrow> bool"
  TypeString :: "gotype \<Rightarrow> (pkgref \<Rightarrow> string) \<Rightarrow> string"
  StructTag_Get :: "string \<Rightarrow> string \<Rightarrow> string"
  ToLower :: "string \<Rightarrow> string"

text \<open>
  The ways a run ends early: the three calls of \<^verbatim>\<open>fatalf\<close> in \<^verbatim>\<open>loadOverrides\<close>, with
  the values their messages print (the position first), and the panics: the \<^verbatim>\<open>default\<close>
  case of \<^verbatim>\<open>walkNamedTypes\<close>, a method call on a nil package, and a slice of an empty
  string.
\<close>

datatype error =
    OverrideEmbeddedOrUnexported string
  | NoMatchingField string string string
  | NotConvertible string string string
  | CantWalk gotype
  | NilPackage
  | SliceBounds

subsection \<open>The intermediate marshaling type\<close>

text \<open>
  \<^verbatim>\<open>marshalerField\<close> and \<^verbatim>\<open>marshalerType\<close>. The \<^verbatim>\<open>parent\<close> pointer of a field is not
  stored: the functions that follow it take the type as an argument. The file set is
  used for positions only, which the fields carry already.
\<close>

record marshalerField =
  mf_field :: govar
  mf_typ :: gotype
  mf_tag :: string

record marshalerType =
  OrigName :: string
  Name :: string
  Fields :: "marshalerField list"
  orig :: named

fun isPointer :: "gotype \<Rightarrow> bool" where
  "isPointer (Pointer _) = True"
| "isPointer _ = False"

definition ensurePointer :: "gotype \<Rightarrow> gotype" where
  "ensurePointer t = (if isPointer t then t else Pointer t)"

text \<open>\<^verbatim>\<open>mf.Name()\<close>.\<close>

definition field_Name :: "marshalerField \<Rightarrow> string" where
  "field_Name mf = var_name (mf_field mf)"

text \<open>\<^verbatim>\<open>mf.errorf\<close> with a format that has no verbs.\<close>

definition errorf :: "string \<Rightarrow> marshalerField \<Rightarrow> string \<Rightarrow> string" where
  "errorf origName mf msg =
     var_pos (mf_field mf) @ '': ('' @ origName @ ''.'' @ field_Name mf @ '') '' @ msg"

text \<open>
  The loop of \<^verbatim>\<open>newMarshalerType\<close> over the fields of the struct. The accumulator is the
  slice \<^verbatim>\<open>mtyp.Fields\<close> and the lines written to standard error so far.
\<close>

fun newMarshalerType_loop ::
  "string \<Rightarrow> gostruct \<Rightarrow> marshalerField list \<times> string list \<Rightarrow> marshalerField list \<times> string list"
where
  "newMarshalerType_loop on [] acc = acc"
| "newMarshalerType_loop on ((f, tg) # rest) (fs, warnings) =
     (if \<not> var_exported f then newMarshalerType_loop on rest (fs, warnings)
      else
        let mf = \<lparr>mf_field = f, mf_typ = ensurePointer (var_type f), mf_tag = tg\<rparr> in
        if var_anonymous f
        then newMarshalerType_loop on rest
               (fs, warnings @ [errorf on mf ''Warning: ignoring embedded field''])
        else newMarshalerType_loop on rest (fs @ [mf], warnings))"

text \<open>\<^verbatim>\<open>newMarshalerType\<close>: the marshaling type and what was written to standard error.\<close>

definition newMarshalerType :: "named \<Rightarrow> marshalerType \<times> string list" where
  "newMarshalerType t =
     (let name = obj_name t @ ''JSON'';
          (fs, warnings) = newMarshalerType_loop (obj_name t) (underlying t) ([], [])
      in (\<lparr>OrigName = obj_name t, Name = name, Fields = fs, orig = t\<rparr>, warnings))"

text \<open>
  \<^verbatim>\<open>fieldByName\<close> returns a pointer to the first field with the name, or nil: here the
  index of that field in \<^verbatim>\<open>Fields\<close>.
\<close>

fun fieldByName_from :: "marshalerField list \<Rightarrow> string \<Rightarrow> nat \<Rightarrow> nat option" where
  "fieldByName_from [] name i = None"
| "fieldByName_from (f # fs) name i =
     (if field_Name f = name then Some i else fieldByName_from fs name (Suc i))"

definition fieldByName :: "marshalerType \<Rightarrow> string \<Rightarrow> nat option" where
  "fieldByName mtyp name = fieldByName_from (Fields mtyp) name 0"

text \<open>
  \<^verbatim>\<open>mtyp.typeString\<close>: the qualifier prints nothing for the package of the original type
  and the current name of any other package.
\<close>

definition typeString :: "golib \<Rightarrow> marshalerType \<Rightarrow> pkgstore \<Rightarrow> gotype \<Rightarrow> string" where
  "typeString L mtyp ps t =
     TypeString L t (\<lambda>pkg. if pkg = obj_pkg (orig mtyp) then '''' else pkg_name (ps pkg))"

text \<open>
  One iteration of the loop of \<^verbatim>\<open>loadOverrides\<close>, for the override field \<open>ov\<close>. Each
  \<^verbatim>\<open>fatalf\<close> is an error; the assignment \<^verbatim>\<open>f.typ = ...\<close> updates the field at the index
  that \<^verbatim>\<open>fieldByName\<close> found.
\<close>

definition loadOverride ::
  "golib \<Rightarrow> pkgstore \<Rightarrow> marshalerType \<Rightarrow> govar \<Rightarrow> error + marshalerType" where
  "loadOverride L ps mtyp ov =
     (if var_anonymous ov \<or> \<not> var_exported ov then Inl (OverrideEmbeddedOrUnexported (var_pos ov))
      else case fieldByName mtyp (var_name ov) of
        None \<Rightarrow> Inl (NoMatchingField (var_pos ov) (var_name ov) (OrigName mtyp))
      | Some i \<Rightarrow>
          let f = Fields mtyp ! i in
          if \<not> ConvertibleTo L (var_type ov) (var_type (mf_field f))
          then Inl (NotConvertible (var_pos ov)
                      (typeString L mtyp ps (var_type ov))
                      (typeString L mtyp ps (var_type (mf_field f))))
          else Inr (mtyp\<lparr>Fields := (Fields mtyp)[i := f\<lparr>mf_typ := ensurePointer (var_type ov)\<rparr>]\<rparr>))"

text \<open>\<^verbatim>\<open>loadOverrides\<close>: the override fields in order, stopping at the first \<^verbatim>\<open>fatalf\<close>.\<close>

fun loadOverrides ::
  "golib \<Rightarrow> pkgstore \<Rightarrow> marshalerType \<Rightarrow> gostruct \<Rightarrow> error + marshalerType" where
  "loadOverrides L ps mtyp [] = Inr mtyp"
| "loadOverrides L ps mtyp ((ov, tg) # rest) =
     (case loadOverride L ps mtyp ov of
        Inl e \<Rightarrow> Inl e
      | Inr mtyp' \<Rightarrow> loadOverrides L ps mtyp' rest)"

subsection \<open>Strings\<close>

text \<open>
  \<^verbatim>\<open>strings.HasPrefix\<close>, \<^verbatim>\<open>strings.Index\<close> for a one-byte separator (\<open>-1\<close> when the
  byte does not occur), \<^verbatim>\<open>strconv.Itoa\<close> on a counter that only counts up from zero, and
  \<^verbatim>\<open>strings.ToUpper\<close> on ASCII text, which the format tags \<^verbatim>\<open>json\<close> and \<^verbatim>\<open>yaml\<close> are.
  \<open>lower_byte\<close> is the lower case of an ASCII letter.
\<close>

definition HasPrefix :: "string \<Rightarrow> string \<Rightarrow> bool" where
  "HasPrefix s p = (length p \<le> length s \<and> take (length p) s = p)"

fun Index :: "string \<Rightarrow> char \<Rightarrow> int" where
  "Index [] sep = -1"
| "Index (c # cs) sep =
     (if c = sep then 0 else let i = Index cs sep in if i = -1 then -1 else i + 1)"

definition digit :: "nat \<Rightarrow> char" where
  "digit d = char_of (48 + d)"

function Itoa :: "nat \<Rightarrow> string" where
  "Itoa n = (if n < 10 then [digit n] else Itoa (n div 10) @ [digit (n mod 10)])"
  by pat_completeness auto
termination
  by (relation "measure (\<lambda>n. n)") auto

declare Itoa.simps [simp del]

definition lower_byte :: "char \<Rightarrow> char" where
  "lower_byte c = (if CHR ''A'' \<le> c \<and> c \<le> CHR ''Z'' then char_of (of_char c + (32::nat)) else c)"

definition upper_byte :: "char \<Rightarrow> char" where
  "upper_byte c = (if CHR ''a'' \<le> c \<and> c \<le> CHR ''z'' then char_of (of_char c - (32::nat)) else c)"

definition ToUpper :: "string \<Rightarrow> string" where
  "ToUpper s = map upper_byte s"

text \<open>
  \<^verbatim>\<open>uncapitalize\<close>: the slice \<^verbatim>\<open>s[:1]\<close> panics on the empty string. It is the first byte
  of the name, not its first character, that goes to \<^verbatim>\<open>strings.ToLower\<close>.
\<close>

definition uncapitalize :: "golib \<Rightarrow> string \<Rightarrow> error + string" where
  "uncapitalize L s =
     (if length s < 1 then Inl SliceBounds else Inr (ToLower L (take 1 s) @ drop 1 s))"

text \<open>Sequencing of steps that can fail: the first error ends the run.\<close>

definition and_then :: "error + 'a \<Rightarrow> ('a \<Rightarrow> error + 'b) \<Rightarrow> error + 'b" where
  "and_then r f = (case r of Inl e \<Rightarrow> Inl e | Inr x \<Rightarrow> f x)"

subsection \<open>Imports\<close>

text \<open>
  \<^verbatim>\<open>walkNamedTypes\<close> with a callback that changes a state and can panic. The kinds not
  listed in the type switch reach its \<^verbatim>\<open>default\<close> case, which panics.
\<close>

fun walkNamedTypes ::
  "(pkgref option \<Rightarrow> string \<Rightarrow> 's \<Rightarrow> error + 's) \<Rightarrow> gotype \<Rightarrow> 's \<Rightarrow> error + 's"
and walkStructFields ::
  "(pkgref option \<Rightarrow> string \<Rightarrow> 's \<Rightarrow> error + 's) \<Rightarrow> gotype list \<Rightarrow> 's \<Rightarrow> error + 's"
where
  "walkNamedTypes callback (Basic b) s = Inr s"
| "walkNamedTypes callback (Chan e) s = walkNamedTypes callback e s"
| "walkNamedTypes callback (MapT k e) s =
     (case walkNamedTypes callback k s of
        Inl err \<Rightarrow> Inl err
      | Inr s' \<Rightarrow> walkNamedTypes callback e s')"
| "walkNamedTypes callback (Named pkg n) s = callback pkg n s"
| "walkNamedTypes callback (Pointer e) s = walkNamedTypes callback e s"
| "walkNamedTypes callback (Slice e) s = walkNamedTypes callback e s"
| "walkNamedTypes callback (Struct fts) s = walkStructFields callback fts s"
| "walkNamedTypes callback (Array n e) s = Inl (CantWalk (Array n e))"
| "walkNamedTypes callback Interface s = Inl (CantWalk Interface)"
| "walkNamedTypes callback Signature s = Inl (CantWalk Signature)"
| "walkStructFields callback [] s = Inr s"
| "walkStructFields callback (t # ts) s =
     (case walkNamedTypes callback t s of
        Inl err \<Rightarrow> Inl err
      | Inr s' \<Rightarrow> walkStructFields callback ts s')"

text \<open>
  The Go map \<^verbatim>\<open>seen\<close> is a list of bindings with distinct keys. The order of the list
  stands for the iteration order of the map, which Go leaves unspecified: where a new key
  goes is chosen by a \<open>layout\<close>, an arbitrary function of the table and the key. Reading a
  key that is not bound gives the empty string.
\<close>

type_synonym gomap = "(string \<times> string) list"

type_synonym layout = "gomap \<Rightarrow> string \<Rightarrow> nat"

definition map_index :: "gomap \<Rightarrow> string \<Rightarrow> string" where
  "map_index m k = (case map_of m k of None \<Rightarrow> '''' | Some v \<Rightarrow> v)"

definition map_store :: "layout \<Rightarrow> gomap \<Rightarrow> string \<Rightarrow> string \<Rightarrow> gomap" where
  "map_store ly m k v =
     (if k \<in> set (map fst m) then map (\<lambda>(k', v'). if k' = k then (k', v) else (k', v')) m
      else let i = ly m k mod (length m + 1) in take i m @ (k, v) # drop i m)"

text \<open>
  The variables that the closures of \<^verbatim>\<open>computeImports\<close> share, and the packages, whose
  names \<^verbatim>\<open>SetName\<close> changes.
\<close>

record import_state =
  seen :: gomap
  counter :: nat
  pkgs :: pkgstore

definition SetName :: "pkgref \<Rightarrow> string \<Rightarrow> pkgstore \<Rightarrow> pkgstore" where
  "SetName p n ps = ps(p := (ps p)\<lparr>pkg_name := n\<rparr>)"

text \<open>
  Two states hold the same table when their maps have the same bindings, in whatever
  order, and the counter and the packages are equal.
\<close>

definition same_imports :: "import_state \<Rightarrow> import_state \<Rightarrow> bool" where
  "same_imports s t \<longleftrightarrow>
     map_of (seen s) = map_of (seen t) \<and> distinct (map fst (seen s)) \<and> distinct (map fst (seen t))
     \<and> counter s = counter t \<and> pkgs s = pkgs t"

text \<open>
  The closure \<^verbatim>\<open>add\<close>. Its package argument is nil for the two packages that the
  generated code always refers to; \<^verbatim>\<open>pkg.SetName\<close> on nil panics.
\<close>

definition add :: "layout \<Rightarrow> string \<Rightarrow> string \<Rightarrow> pkgref option \<Rightarrow> import_state \<Rightarrow> error + import_state" where
  "add ly name path pkg s =
     (if map_index (seen s) name \<noteq> path then
        (let (name, s) =
               (case pkg of
                  None \<Rightarrow> (name, s)
                | Some p \<Rightarrow> (''_'' @ name, s\<lparr>pkgs := SetName p (''_'' @ name) (pkgs s)\<rparr>))
         in if map_index (seen s) name \<noteq> '''' then
              (let name = name @ ''_'' @ Itoa (counter s);
                   s = s\<lparr>counter := counter s + 1\<rparr>
               in case pkg of
                    None \<Rightarrow> Inl NilPackage
                  | Some p \<Rightarrow>
                      Inr (s\<lparr>pkgs := SetName p name (pkgs s),
                             seen := map_store ly (seen s) name path\<rparr>))
            else Inr (s\<lparr>seen := map_store ly (seen s) name path\<rparr>))
      else Inr s)"

text \<open>
  The closure \<^verbatim>\<open>addNamed\<close>, as the callback of \<^verbatim>\<open>walkNamedTypes\<close>. A named type without
  a package differs from the package of the original type, and \<^verbatim>\<open>pkg.Name()\<close> on nil
  panics.
\<close>

definition addNamed ::
  "layout \<Rightarrow> marshalerType \<Rightarrow> pkgref option \<Rightarrow> string \<Rightarrow> import_state \<Rightarrow> error + import_state" where
  "addNamed ly mtyp pkg n s =
     (if pkg \<noteq> Some (obj_pkg (orig mtyp)) then
        (case pkg of
           None \<Rightarrow> Inl NilPackage
         | Some p \<Rightarrow> add ly (pkg_name (pkgs s p)) (pkg_path (pkgs s p)) pkg s)
      else Inr s)"

fun computeImports_loop ::
  "layout \<Rightarrow> marshalerType \<Rightarrow> marshalerField list \<Rightarrow> import_state \<Rightarrow> error + import_state" where
  "computeImports_loop ly mtyp [] s = Inr s"
| "computeImports_loop ly mtyp (f # fs) s =
     and_then (walkNamedTypes (addNamed ly mtyp) (mf_typ f) s) (\<lambda>s.
     and_then (walkNamedTypes (addNamed ly mtyp) (var_type (mf_field f)) s) (\<lambda>s.
     computeImports_loop ly mtyp fs s))"

text \<open>
  \<^verbatim>\<open>computeImports\<close>, from the packages as the type checker left them. The result holds
  the map that the function returns and the packages with their new names.
\<close>

definition computeImports :: "layout \<Rightarrow> marshalerType \<Rightarrow> pkgstore \<Rightarrow> error + import_state" where
  "computeImports ly mtyp ps =
     and_then (add ly ''json'' ''encoding/json'' None \<lparr>seen = [], counter = 0, pkgs = ps\<rparr>) (\<lambda>s.
     and_then (add ly ''errors'' ''errors'' None s) (\<lambda>s.
     computeImports_loop ly mtyp (Fields mtyp) s))"

text \<open>
  The import block of \<^verbatim>\<open>makeMarshalingCode\<close>. The template ranges over the map, and
  \<^verbatim>\<open>text/template\<close> visits a map with string keys in sorted key order.
\<close>

definition range_map :: "gomap \<Rightarrow> (string \<times> string) list" where
  "range_map m = map (\<lambda>k. (k, map_index m k)) (sort (map fst m))"

definition import_block :: "gomap \<Rightarrow> string" where
  "import_block m =
     ''import ('' @
     concat (map (\<lambda>(name, path).
                    [CHR ''\<newline>'', CHR 0x09] @ name @ '' '' @ [CHR 0x22] @ path @ [CHR 0x22])
                 (range_map m)) @
     [CHR ''\<newline>''] @ '')''"

subsection \<open>Conversions and struct tags\<close>

text \<open>
  \<^verbatim>\<open>conversionExpr\<close>. The first two branches change both \<^verbatim>\<open>valueExpr\<close> and \<^verbatim>\<open>from\<close>;
  the type assertion \<^verbatim>\<open>from.(*types.Pointer)\<close> is made under \<^verbatim>\<open>isPointer(from)\<close> only.
\<close>

definition conversionExpr ::
  "golib \<Rightarrow> marshalerType \<Rightarrow> pkgstore \<Rightarrow> string \<Rightarrow> gotype \<Rightarrow> gotype \<Rightarrow> string" where
  "conversionExpr L mtyp ps valueExpr from to =
     (let (valueExpr, from) =
            (case from of
               Pointer elem \<Rightarrow>
                 if \<not> isPointer to then (''*'' @ valueExpr, elem) else (valueExpr, from)
             | _ \<Rightarrow>
                 if isPointer to then (''&'' @ valueExpr, Pointer from) else (valueExpr, from))
      in if AssignableTo L from to then valueExpr
         else ''('' @ typeString L mtyp ps to @ '')('' @ valueExpr @ '')'')"

definition Convert :: "golib \<Rightarrow> marshalerType \<Rightarrow> pkgstore \<Rightarrow> marshalerField \<Rightarrow> string \<Rightarrow> string" where
  "Convert L mtyp ps mf variable =
     (let expr = variable @ ''.'' @ var_name (mf_field mf)
      in conversionExpr L mtyp ps expr (var_type (mf_field mf)) (mf_typ mf))"

definition ConvertBack :: "golib \<Rightarrow> marshalerType \<Rightarrow> pkgstore \<Rightarrow> marshalerField \<Rightarrow> string \<Rightarrow> string" where
  "ConvertBack L mtyp ps mf variable =
     (let expr = variable @ ''.'' @ var_name (mf_field mf)
      in conversionExpr L mtyp ps expr (mf_typ mf) (var_type (mf_field mf)))"

text \<open>\<^verbatim>\<open>mf.Type()\<close> and \<^verbatim>\<open>mf.StructTag()\<close>.\<close>

definition field_Type :: "golib \<Rightarrow> marshalerType \<Rightarrow> pkgstore \<Rightarrow> marshalerField \<Rightarrow> string" where
  "field_Type L mtyp ps mf = typeString L mtyp ps (mf_typ mf)"

definition StructTag :: "marshalerField \<Rightarrow> string" where
  "StructTag mf = (if mf_tag mf = '''' then '''' else ''`'' @ mf_tag mf @ ''`'')"

definition isOptional :: "golib \<Rightarrow> marshalerField \<Rightarrow> string \<Rightarrow> bool" where
  "isOptional L mf format =
     (let rtag = mf_tag mf
      in if StructTag_Get L rtag ''optional'' = ''true'' \<or> StructTag_Get L rtag ''optional'' = ''yes''
         then True
         else HasPrefix (StructTag_Get L rtag format) ''-'')"

definition encodedName :: "golib \<Rightarrow> marshalerField \<Rightarrow> string \<Rightarrow> error + string" where
  "encodedName L mf format =
     (let val = StructTag_Get L (mf_tag mf) format;
          comma = Index val (CHR '','');
          val = (if comma \<noteq> -1 then take (nat comma) val else val)
      in if val = '''' \<or> val = ''-'' then uncapitalize L (field_Name mf) else Inr val)"

subsection \<open>Templates\<close>

text \<open>
  \<^verbatim>\<open>render\<close> trims the template and executes it; \<^verbatim>\<open>text/template\<close> writes the text
  between the actions as it is, except that \<^verbatim>\<open>{{-\<close> removes the white space before the
  action. Each template below is the text that results, with the actions replaced by
  the values they print.
\<close>

abbreviation nl :: string where
  "nl \<equiv> [CHR ''\<newline>'']"

abbreviation tabs :: "nat \<Rightarrow> string" where
  "tabs n \<equiv> replicate n (CHR 0x09)"

abbreviation dq :: string where
  "dq \<equiv> [CHR 0x22]"

definition TypeDecl :: "golib \<Rightarrow> marshalerType \<Rightarrow> pkgstore \<Rightarrow> string" where
  "TypeDecl L mtyp ps =
     ''type '' @ Name mtyp @ '' struct{'' @
     concat (map (\<lambda>mf. nl @ tabs 3 @ field_Name mf @ '' '' @ field_Type L mtyp ps mf @ '' '' @ StructTag mf)
                 (Fields mtyp)) @
     nl @ tabs 1 @ ''}''"

definition JSONMarshalMethod :: "golib \<Rightarrow> marshalerType \<Rightarrow> pkgstore \<Rightarrow> string" where
  "JSONMarshalMethod L mtyp ps =
     ''// MarshalJSON implements json.Marshaler.'' @ nl @
     ''func (x *'' @ OrigName mtyp @ '') MarshalJSON() ([]byte, error) {'' @ nl @
     tabs 1 @ TypeDecl L mtyp ps @ nl @ nl @
     tabs 1 @ ''return json.Marshal(&'' @ Name mtyp @ ''{'' @
     concat (map (\<lambda>mf. nl @ tabs 3 @ field_Name mf @ '': '' @ Convert L mtyp ps mf ''x'' @ '','')
                 (Fields mtyp)) @
     nl @ tabs 1 @ ''})'' @ nl @ ''}''"

definition YAMLMarshalMethod :: "golib \<Rightarrow> marshalerType \<Rightarrow> pkgstore \<Rightarrow> string" where
  "YAMLMarshalMethod L mtyp ps =
     ''// MarshalYAML implements yaml.Marshaler'' @ nl @
     ''func (x *'' @ OrigName mtyp @ '') MarshalYAML() (interface{}, error) {'' @ nl @
     tabs 1 @ TypeDecl L mtyp ps @ nl @ nl @
     tabs 1 @ ''return &'' @ Name mtyp @ ''{'' @
     concat (map (\<lambda>mf. nl @ tabs 3 @ field_Name mf @ '': '' @ Convert L mtyp ps mf ''x'' @ '','')
                 (Fields mtyp)) @
     nl @ tabs 1 @ ''}, nil'' @ nl @ ''}''"

text \<open>
  The loop of \<^verbatim>\<open>UnmarshalConversions\<close>; \<open>s\<close> is the result so far. The field context is
  built before the branch, so \<^verbatim>\<open>encodedName\<close> runs (and can panic) for every field.
\<close>

fun UnmarshalConversions_loop ::
  "golib \<Rightarrow> marshalerType \<Rightarrow> pkgstore \<Rightarrow> string \<Rightarrow> marshalerField list \<Rightarrow> string \<Rightarrow> error + string"
where
  "UnmarshalConversions_loop L mtyp ps formatTag [] s = Inr s"
| "UnmarshalConversions_loop L mtyp ps formatTag (mf # rest) s =
     (let Typ = ToUpper formatTag @ '' '' @ OrigName mtyp;
          Name = field_Name mf
      in case encodedName L mf formatTag of
           Inl err \<Rightarrow> Inl err
         | Inr EncName \<Rightarrow>
             let Conv = ConvertBack L mtyp ps mf ''dec'';
                 s = (if isOptional L mf formatTag
                      then s @ ''if dec.'' @ Name @ '' != nil {'' @ nl @
                           tabs 5 @ ''v.'' @ Name @ '' = '' @ Conv @ nl @
                           tabs 4 @ ''}''
                      else s @ ''if dec.'' @ Name @ '' == nil {'' @ nl @
                           tabs 5 @ ''return errors.New('' @ dq @ ''missing required field '' @
                             [CHR 0x27] @ EncName @ [CHR 0x27] @ '' in '' @ Typ @ dq @ '')'' @ nl @
                           tabs 4 @ ''}'' @ nl @
                           tabs 4 @ ''v.'' @ Name @ '' = '' @ Conv);
                 s = s @ nl
             in UnmarshalConversions_loop L mtyp ps formatTag rest s)"

definition UnmarshalConversions :: "golib \<Rightarrow> marshalerType \<Rightarrow> pkgstore \<Rightarrow> string \<Rightarrow> error + string" where
  "UnmarshalConversions L mtyp ps formatTag =
     UnmarshalConversions_loop L mtyp ps formatTag (Fields mtyp) ''''"

subsection \<open>A package to run the generator on\<close>

text \<open>
  The library functions on the types and tags of the example below. \<open>sample_ConvertibleTo\<close>
  and \<open>sample_AssignableTo\<close> follow the Go specification on basic types and on pointers
  to them: a value converts to an identical type, an integer converts to any integer type
  and to \<^verbatim>\<open>string\<close>, and a value is assignable to an identical type.
  \<open>sample_TypeString\<close> prints basic, pointer, slice and named types as \<^verbatim>\<open>go/types\<close>
  does. \<open>sample_Get\<close> is \<^verbatim>\<open>reflect.StructTag.Get\<close> on the tags of the example.
  \<open>sample_ToLower\<close> is \<^verbatim>\<open>strings.ToLower\<close> on text made of ASCII characters and of bytes
  that belong to no UTF-8 character, such as the first byte of a multi-byte character
  alone: an ASCII letter goes to lower case, and each such byte becomes the replacement
  character U+FFFD, the three bytes \<^verbatim>\<open>EF BF BD\<close>.
\<close>

definition isInteger :: "string \<Rightarrow> bool" where
  "isInteger n = (n \<in> set [''int'', ''int8'', ''int16'', ''int32'', ''int64'',
                           ''uint'', ''uint8'', ''uint16'', ''uint32'', ''uint64'', ''uintptr''])"

fun sample_ConvertibleTo :: "gotype \<Rightarrow> gotype \<Rightarrow> bool" where
  "sample_ConvertibleTo (Basic v) (Basic t) =
     (v = t \<or> (isInteger v \<and> isInteger t) \<or> (isInteger v \<and> t = ''string''))"
| "sample_ConvertibleTo v t = (v = t)"

definition sample_AssignableTo :: "gotype \<Rightarrow> gotype \<Rightarrow> bool" where
  "sample_AssignableTo v t = (v = t)"

fun sample_TypeString :: "gotype \<Rightarrow> (pkgref \<Rightarrow> string) \<Rightarrow> string" where
  "sample_TypeString (Basic n) qf = n"
| "sample_TypeString (Pointer e) qf = ''*'' @ sample_TypeString e qf"
| "sample_TypeString (Slice e) qf = ''[]'' @ sample_TypeString e qf"
| "sample_TypeString (Named None n) qf = n"
| "sample_TypeString (Named (Some p) n) qf = (if qf p = '''' then n else qf p @ ''.'' @ n)"
| "sample_TypeString t qf = ''''"

definition tag_json_omitempty :: string where
  "tag_json_omitempty = ''json:'' @ dq @ '',omitempty'' @ dq"

definition tag_json_wt :: string where
  "tag_json_wt = ''json:'' @ dq @ ''wt,omitempty'' @ dq"

definition tag_optional :: string where
  "tag_optional = ''optional:'' @ dq @ ''true'' @ dq"

definition tag_json_dash :: string where
  "tag_json_dash = ''json:'' @ dq @ ''-'' @ dq"

definition sample_Get :: "string \<Rightarrow> string \<Rightarrow> string" where
  "sample_Get tg key =
     (if key = ''json'' \<and> tg = tag_json_omitempty then '',omitempty''
      else if key = ''json'' \<and> tg = tag_json_wt then ''wt,omitempty''
      else if key = ''optional'' \<and> tg = tag_optional then ''true''
      else if key = ''json'' \<and> tg = tag_json_dash then ''-''
      else '''')"

definition sample_ToLower :: "string \<Rightarrow> string" where
  "sample_ToLower s =
     concat (map (\<lambda>c. if c < CHR 0x80 then [lower_byte c] else [CHR 0xEF, CHR 0xBF, CHR 0xBD]) s)"

definition sampleLib :: golib where
  "sampleLib = \<lparr>ConvertibleTo = sample_ConvertibleTo, AssignableTo = sample_AssignableTo,
                 TypeString = sample_TypeString, StructTag_Get = sample_Get,
                 ToLower = sample_ToLower\<rparr>"

text \<open>
  \<^verbatim>\<open>
  package main

  import "math/big"

  type Base struct{}

  type Item struct {
          ID     string
          Label  string `json:",omitempty"`
          Weight int    `json:"wt,omitempty"`
          Note   string `optional:"true"`
          Skip   string `json:"-"`
          hidden int
          Base
          Amount *big.Int
  }

  type ItemWeight struct{ Weight int64 }

  type ItemID struct{ ID int }

  type ItemFlag struct{ Weight bool }
  \<close>
  Package 0 is \<^verbatim>\<open>main\<close> and package 1 is \<^verbatim>\<open>math/big\<close>. Package 2 is a second
  package with the name \<^verbatim>\<open>big\<close>, at the path \<^verbatim>\<open>other/big\<close>.
\<close>

definition example_pkgs :: pkgstore where
  "example_pkgs =
     (\<lambda>p. if p = 0 then \<lparr>pkg_name = ''main'', pkg_path = ''main''\<rparr>
          else if p = 1 then \<lparr>pkg_name = ''big'', pkg_path = ''math/big''\<rparr>
          else \<lparr>pkg_name = ''big'', pkg_path = ''other/big''\<rparr>)"

definition Item_fields :: gostruct where
  "Item_fields =
     [(\<lparr>var_name = ''ID'', var_type = Basic ''string'', var_exported = True,
        var_anonymous = False, var_pos = ''item.go:8:2''\<rparr>, ''''),
      (\<lparr>var_name = ''Label'', var_type = Basic ''string'', var_exported = True,
        var_anonymous = False, var_pos = ''item.go:9:2''\<rparr>, tag_json_omitempty),
      (\<lparr>var_name = ''Weight'', var_type = Basic ''int'', var_exported = True,
        var_anonymous = False, var_pos = ''item.go:10:2''\<rparr>, tag_json_wt),
      (\<lparr>var_name = ''Note'', var_type = Basic ''string'', var_exported = True,
        var_anonymous = False, var_pos = ''item.go:11:2''\<rparr>, tag_optional),
      (\<lparr>var_name = ''Skip'', var_type = Basic ''string'', var_exported = True,
        var_anonymous = False, var_pos = ''item.go:12:2''\<rparr>, tag_json_dash),
      (\<lparr>var_name = ''hidden'', var_type = Basic ''int'', var_exported = False,
        var_anonymous = False, var_pos = ''item.go:13:2''\<rparr>, ''''),
      (\<lparr>var_name = ''Base'', var_type = Named (Some 0) ''Base'', var_exported = True,
        var_anonymous = True, var_pos = ''item.go:14:2''\<rparr>, ''''),
      (\<lparr>var_name = ''Amount'', var_type = Pointer (Named (Some 1) ''Int''), var_exported = True,
        var_anonymous = False, var_pos = ''item.go:15:2''\<rparr>, '''')]"

definition Item :: named where
  "Item = \<lparr>obj_name = ''Item'', obj_pkg = 0, underlying = Item_fields\<rparr>"

definition ItemWeight_fields :: gostruct where
  "ItemWeight_fields =
     [(\<lparr>var_name = ''Weight'', var_type = Basic ''int64'', var_exported = True,
        var_anonymous = False, var_pos = ''item.go:18:25''\<rparr>, '''')]"

definition ItemFlag_fields :: gostruct where
  "ItemFlag_fields =
     [(\<lparr>var_name = ''Weight'', var_type = Basic ''bool'', var_exported = True,
        var_anonymous = False, var_pos = ''item.go:22:23''\<rparr>, '''')]"

definition ItemID_fields :: gostruct where
  "ItemID_fields =
     [(\<lparr>var_name = ''ID'', var_type = Basic ''int'', var_exported = True,
        var_anonymous = False, var_pos = ''item.go:20:21''\<rparr>, '''')]"

text \<open>
  The state of \<^verbatim>\<open>computeImports\<close> on \<^verbatim>\<open>Item\<close> after the two fixed packages, and after the
  field \<^verbatim>\<open>Amount\<close>.
\<close>

definition imports_seeded :: import_state where
  "imports_seeded =
     \<lparr>seen = [(''json'', ''encoding/json''), (''errors'', ''errors'')], counter = 0,
      pkgs = example_pkgs\<rparr>"

definition imports_Item :: import_state where
  "imports_Item =
     \<lparr>seen = [(''json'', ''encoding/json''), (''errors'', ''errors''), (''_big'', ''math/big'')],
      counter = 0, pkgs = SetName 1 ''_big'' example_pkgs\<rparr>"

text \<open>A layout that puts every new key first, and one that puts it last.\<close>

definition layout_first :: layout where
  "layout_first m k = 0"

definition layout_last :: layout where
  "layout_last m k = length m"

section \<open>Properties\<close>

subsection \<open>The wire record\<close>

lemma newMarshalerType_loop_eq:
  "newMarshalerType_loop on fl (fs, ws) =
     (fs @ map (\<lambda>(f, tg). \<lparr>mf_field = f, mf_typ = ensurePointer (var_type f), mf_tag = tg\<rparr>)
               (filter (\<lambda>(f, tg). var_exported f \<and> \<not> var_anonymous f) fl),
      ws @ map (\<lambda>(f, tg). errorf on \<lparr>mf_field = f, mf_typ = ensurePointer (var_type f), mf_tag = tg\<rparr>
                              ''Warning: ignoring embedded field'')
               (filter (\<lambda>(f, tg). var_exported f \<and> var_anonymous f) fl))"
proof (induction fl arbitrary: fs ws)
  case Nil
  show ?case by simp
next
  case (Cons a fl)
  obtain f tg where a: "a = (f, tg)" by (cases a)
  show ?case
    unfolding a by (simp add: Cons.IH Let_def)
qed

lemma Fields_newMarshalerType:
  "Fields (fst (newMarshalerType t)) =
     map (\<lambda>(f, tg). \<lparr>mf_field = f, mf_typ = ensurePointer (var_type f), mf_tag = tg\<rparr>)
         (filter (\<lambda>(f, tg). var_exported f \<and> \<not> var_anonymous f) (underlying t))"
  by (simp add: newMarshalerType_def newMarshalerType_loop_eq split_def)

text \<open>
  C4: the wire record built by \<^verbatim>\<open>newMarshalerType\<close> has one field for each field of the
  input struct that is exported and not embedded, and no other; the fields are in
  declaration order, each with the pointer form of the declared type and the tag copied.
  A field that is not exported is skipped without a message, before the embedded check; an
  exported embedded field is skipped with one warning line, and the run goes on.
\<close>

theorem newMarshalerType_fields:
  "Fields (fst (newMarshalerType t)) =
     map (\<lambda>(f, tg). \<lparr>mf_field = f, mf_typ = ensurePointer (var_type f), mf_tag = tg\<rparr>)
         (filter (\<lambda>(f, tg). var_exported f \<and> \<not> var_anonymous f) (underlying t))
   \<and> snd (newMarshalerType t) =
     map (\<lambda>(f, tg). var_pos f @ '': ('' @ obj_name t @ ''.'' @ var_name f @ '') Warning: ignoring embedded field'')
         (filter (\<lambda>(f, tg). var_exported f \<and> var_anonymous f) (underlying t))"
  by (simp add: newMarshalerType_def newMarshalerType_loop_eq errorf_def field_Name_def split_def)

lemma ensurePointer_isPointer: "isPointer (ensurePointer t)"
  by (cases t) (simp_all add: ensurePointer_def)

lemma loadOverride_pointers:
  assumes "\<forall>mf\<in>set (Fields mtyp). isPointer (mf_typ mf)"
    and "loadOverride L ps mtyp ov = Inr mtyp'"
  shows "\<forall>mf\<in>set (Fields mtyp'). isPointer (mf_typ mf)"
proof -
  from assms(2) obtain i where
    m': "mtyp' = mtyp\<lparr>Fields := (Fields mtyp)[i := (Fields mtyp ! i)\<lparr>mf_typ := ensurePointer (var_type ov)\<rparr>]\<rparr>"
    by (auto simp: loadOverride_def Let_def split: if_splits option.splits)
  show ?thesis
  proof
    fix mf assume "mf \<in> set (Fields mtyp')"
    then have "mf \<in> insert ((Fields mtyp ! i)\<lparr>mf_typ := ensurePointer (var_type ov)\<rparr>) (set (Fields mtyp))"
      unfolding m' using set_update_subset_insert by fastforce
    then show "isPointer (mf_typ mf)"
      using assms(1) by (auto simp: ensurePointer_isPointer)
  qed
qed

lemma loadOverrides_pointers:
  "\<forall>mf\<in>set (Fields mtyp). isPointer (mf_typ mf) \<Longrightarrow> loadOverrides L ps mtyp ovs = Inr mtyp'
   \<Longrightarrow> \<forall>mf\<in>set (Fields mtyp'). isPointer (mf_typ mf)"
proof (induction ovs arbitrary: mtyp)
  case Nil
  then show ?case by simp
next
  case (Cons a ovs)
  obtain ov tg where a: "a = (ov, tg)" by (cases a)
  from Cons.prems(2) obtain m1 where
    s1: "loadOverride L ps mtyp ov = Inr m1" and s2: "loadOverrides L ps m1 ovs = Inr mtyp'"
    unfolding a by (auto split: sum.splits)
  from loadOverride_pointers[OF Cons.prems(1) s1] Cons.IH[OF _ s2] show ?case by blast
qed

text \<open>
  C10: every field of the wire record has a pointer type. \<^verbatim>\<open>newMarshalerType\<close> gives
  each field \<^verbatim>\<open>ensurePointer\<close> of its declared type, which is a pointer; an iteration of
  \<^verbatim>\<open>loadOverrides\<close> that succeeds keeps all field types pointers; so they are pointers
  after \<^verbatim>\<open>loadOverrides\<close> has run on the result of \<^verbatim>\<open>newMarshalerType\<close>.
\<close>

theorem wire_types_are_pointers:
  "(\<forall>mf\<in>set (Fields (fst (newMarshalerType t))).
      mf_typ mf = ensurePointer (var_type (mf_field mf)) \<and> isPointer (mf_typ mf))
   \<and> ((\<forall>mf\<in>set (Fields mtyp). isPointer (mf_typ mf)) \<longrightarrow> loadOverride L ps mtyp ov = Inr mtyp1
        \<longrightarrow> (\<forall>mf\<in>set (Fields mtyp1). isPointer (mf_typ mf)))
   \<and> (loadOverrides L ps (fst (newMarshalerType t)) ovs = Inr mtyp2
        \<longrightarrow> (\<forall>mf\<in>set (Fields mtyp2). isPointer (mf_typ mf)))"
proof (intro conjI impI)
  show new: "\<forall>mf\<in>set (Fields (fst (newMarshalerType t))).
      mf_typ mf = ensurePointer (var_type (mf_field mf)) \<and> isPointer (mf_typ mf)"
    by (auto simp: Fields_newMarshalerType ensurePointer_isPointer)
  show "\<forall>mf\<in>set (Fields mtyp1). isPointer (mf_typ mf)"
    if "\<forall>mf\<in>set (Fields mtyp). isPointer (mf_typ mf)" "loadOverride L ps mtyp ov = Inr mtyp1"
    using loadOverride_pointers[OF that] .
  show "\<forall>mf\<in>set (Fields mtyp2). isPointer (mf_typ mf)"
    if "loadOverrides L ps (fst (newMarshalerType t)) ovs = Inr mtyp2"
    using loadOverrides_pointers[OF _ that] new by blast
qed

text \<open>
  On \<^verbatim>\<open>Item\<close> with the override \<^verbatim>\<open>ItemWeight\<close>: after \<^verbatim>\<open>newMarshalerType\<close>, after the one
  iteration of the loop and after \<^verbatim>\<open>loadOverrides\<close>.
\<close>

theorem wire_types_are_pointers_witness:
  "list_all (\<lambda>mf. isPointer (mf_typ mf)) (Fields (fst (newMarshalerType Item)))
   \<and> list_all (\<lambda>mf. isPointer (mf_typ mf))
       (Fields (projr (loadOverride sampleLib example_pkgs (fst (newMarshalerType Item))
                         (fst (hd ItemWeight_fields)))))
   \<and> list_all (\<lambda>mf. isPointer (mf_typ mf))
       (Fields (projr (loadOverrides sampleLib example_pkgs (fst (newMarshalerType Item)) ItemWeight_fields)))
   \<and> map mf_typ (Fields (projr (loadOverrides sampleLib example_pkgs (fst (newMarshalerType Item)) ItemWeight_fields)))
     = [Pointer (Basic ''string''), Pointer (Basic ''string''),
        Pointer (Basic ''int64''), Pointer (Basic ''string''),
        Pointer (Basic ''string''), Pointer (Named (Some 1) ''Int'')]"
proof -
  let ?m = "fst (newMarshalerType Item)"
  let ?ov = "fst (hd ItemWeight_fields)"
  let ?r1 = "loadOverride sampleLib example_pkgs ?m ?ov"
  let ?r = "loadOverrides sampleLib example_pkgs ?m ItemWeight_fields"
  note T = wire_types_are_pointers[of Item ?m sampleLib example_pkgs ?ov "projr ?r1"
      ItemWeight_fields "projr ?r"]
  have h1: "?r1 = Inr (projr ?r1)"
    by code_simp
  have h2: "?r = Inr (projr ?r)"
    by code_simp
  from T[THEN conjunct1] have a: "\<forall>mf\<in>set (Fields ?m). isPointer (mf_typ mf)"
    by blast
  from T[THEN conjunct2, THEN conjunct1, THEN mp, OF a, THEN mp, OF h1]
  have b: "\<forall>mf\<in>set (Fields (projr ?r1)). isPointer (mf_typ mf)" .
  from T[THEN conjunct2, THEN conjunct2, THEN mp, OF h2]
  have c: "\<forall>mf\<in>set (Fields (projr ?r)). isPointer (mf_typ mf)" .
  have types: "map mf_typ (Fields (projr ?r))
     = [Pointer (Basic ''string''), Pointer (Basic ''string''),
        Pointer (Basic ''int64''), Pointer (Basic ''string''),
        Pointer (Basic ''string''), Pointer (Named (Some 1) ''Int'')]"
    by code_simp
  from a b c types show ?thesis
    unfolding list_all_iff by (intro conjI)
qed

subsection \<open>Field type overrides\<close>

lemma fieldByName_from_Some:
  "fieldByName_from fs name k = Some i \<Longrightarrow> k \<le> i \<and> i - k < length fs \<and> field_Name (fs ! (i - k)) = name"
proof (induction fs arbitrary: k)
  case Nil
  then show ?case by simp
next
  case (Cons f fs)
  show ?case
  proof (cases "field_Name f = name")
    case True
    with Cons.prems show ?thesis by simp
  next
    case False
    with Cons.prems have "fieldByName_from fs name (Suc k) = Some i" by simp
    from Cons.IH[OF this] have "Suc k \<le> i" "i - Suc k < length fs" "field_Name (fs ! (i - Suc k)) = name"
      by auto
    moreover from \<open>Suc k \<le> i\<close> have "i - k = Suc (i - Suc k)" by simp
    ultimately show ?thesis by simp
  qed
qed

lemma fieldByName_from_names:
  "map field_Name fs = map field_Name fs' \<Longrightarrow> fieldByName_from fs name k = fieldByName_from fs' name k"
proof (induction fs arbitrary: fs' k)
  case Nil
  then show ?case by simp
next
  case (Cons f fs)
  then obtain g gs where "fs' = g # gs" by (cases fs') auto
  with Cons show ?case by auto
qed

lemma fieldByName_lt: "fieldByName m name = Some i \<Longrightarrow> i < length (Fields m)"
  unfolding fieldByName_def using fieldByName_from_Some[of "Fields m" name 0 i] by simp

lemma loadOverride_fields:
  assumes "loadOverride L ps mtyp ov = Inr mtyp'"
  shows "map mf_field (Fields mtyp') = map mf_field (Fields mtyp)"
proof -
  from assms obtain i where i: "fieldByName mtyp (var_name ov) = Some i"
    and m': "mtyp' = mtyp\<lparr>Fields := (Fields mtyp)[i := (Fields mtyp ! i)\<lparr>mf_typ := ensurePointer (var_type ov)\<rparr>]\<rparr>"
    by (auto simp: loadOverride_def Let_def split: if_splits option.splits)
  have "i < length (Fields mtyp)" using i by (rule fieldByName_lt)
  then have "mf_field (Fields mtyp ! i) = map mf_field (Fields mtyp) ! i" by simp
  then show ?thesis
    unfolding m' by (simp add: map_update del: nth_map)
qed

lemma fieldByName_fields:
  "map mf_field (Fields m1) = map mf_field (Fields m2) \<Longrightarrow> fieldByName m1 name = fieldByName m2 name"
proof -
  assume a: "map mf_field (Fields m1) = map mf_field (Fields m2)"
  have "map field_Name (Fields m1) = map (var_name \<circ> mf_field) (Fields m1)"
    by (simp add: field_Name_def comp_def)
  also have "\<dots> = map var_name (map mf_field (Fields m1))" by simp
  also have "\<dots> = map var_name (map mf_field (Fields m2))" using a by simp
  also have "\<dots> = map field_Name (Fields m2)" by (simp add: field_Name_def comp_def)
  finally show ?thesis
    unfolding fieldByName_def by (rule fieldByName_from_names)
qed

lemma loadOverride_checked:
  assumes "loadOverride L ps mtyp ov = Inr mtyp'"
  shows "\<exists>i. fieldByName mtyp (var_name ov) = Some i \<and>
             ConvertibleTo L (var_type ov) (var_type (mf_field (Fields mtyp ! i)))"
  using assms by (auto simp: loadOverride_def Let_def split: if_splits option.splits)

lemma loadOverrides_checked:
  "loadOverrides L ps mtyp ovs = Inr mtyp' \<Longrightarrow> (ov, tg) \<in> set ovs \<Longrightarrow>
     \<exists>i. fieldByName mtyp (var_name ov) = Some i \<and>
         ConvertibleTo L (var_type ov) (var_type (mf_field (Fields mtyp ! i)))"
proof (induction ovs arbitrary: mtyp)
  case Nil
  then show ?case by simp
next
  case (Cons a ovs)
  obtain ov1 tg1 where a: "a = (ov1, tg1)" by (cases a)
  from Cons.prems(1) obtain m1 where
    s1: "loadOverride L ps mtyp ov1 = Inr m1" and s2: "loadOverrides L ps m1 ovs = Inr mtyp'"
    unfolding a by (auto split: sum.splits)
  show ?case
  proof (cases "(ov, tg) = a")
    case True
    with a s1 loadOverride_checked show ?thesis by auto
  next
    case False
    with Cons.prems(2) have "(ov, tg) \<in> set ovs" by simp
    from Cons.IH[OF s2 this] obtain i where
      i: "fieldByName m1 (var_name ov) = Some i"
      and c: "ConvertibleTo L (var_type ov) (var_type (mf_field (Fields m1 ! i)))" by blast
    have same: "map mf_field (Fields m1) = map mf_field (Fields mtyp)"
      by (rule loadOverride_fields[OF s1])
    then have i': "fieldByName mtyp (var_name ov) = Some i"
      using fieldByName_fields[of m1 mtyp] i by simp
    have "i < length (Fields m1)" "i < length (Fields mtyp)"
      using fieldByName_lt i i' by auto
    then have "mf_field (Fields m1 ! i) = mf_field (Fields mtyp ! i)"
      using same by (metis nth_map)
    with c i' show ?thesis by auto
  qed
qed

text \<open>
  C1, amended: \<^verbatim>\<open>loadOverrides\<close> accepts an override field only if \<^verbatim>\<open>types.ConvertibleTo\<close>
  holds from the declared type of the override field to the declared type of the original
  field with the same name. The check is made once, in that direction, on the two declared
  types as they are: no pointer is added or removed before it. For an override field that
  is exported, not embedded and has the name of the field at index \<open>i\<close>, the iteration ends
  the run with the error \<^verbatim>\<open>field override type ... is not convertible to ...\<close> when the
  check fails, and otherwise replaces the wire type of that field by \<^verbatim>\<open>ensurePointer\<close> of
  the override type. When \<^verbatim>\<open>loadOverrides\<close> succeeds, every override field has passed the
  check against the original field of its name.
\<close>

theorem loadOverrides_convertible:
  "(\<not> var_anonymous ov \<and> var_exported ov \<and> fieldByName mtyp (var_name ov) = Some i \<longrightarrow>
      loadOverride L ps mtyp ov =
        (if ConvertibleTo L (var_type ov) (var_type (mf_field (Fields mtyp ! i)))
         then Inr (mtyp\<lparr>Fields := (Fields mtyp)[i := (Fields mtyp ! i)\<lparr>mf_typ := ensurePointer (var_type ov)\<rparr>]\<rparr>)
         else Inl (NotConvertible (var_pos ov) (typeString L mtyp ps (var_type ov))
                     (typeString L mtyp ps (var_type (mf_field (Fields mtyp ! i)))))))
   \<and> (loadOverrides L ps mtyp ovs = Inr mtyp' \<longrightarrow>
        (\<forall>(ov, tg)\<in>set ovs. \<exists>i. fieldByName mtyp (var_name ov) = Some i \<and>
            ConvertibleTo L (var_type ov) (var_type (mf_field (Fields mtyp ! i)))))"
proof (intro conjI impI)
  show "loadOverride L ps mtyp ov =
        (if ConvertibleTo L (var_type ov) (var_type (mf_field (Fields mtyp ! i)))
         then Inr (mtyp\<lparr>Fields := (Fields mtyp)[i := (Fields mtyp ! i)\<lparr>mf_typ := ensurePointer (var_type ov)\<rparr>]\<rparr>)
         else Inl (NotConvertible (var_pos ov) (typeString L mtyp ps (var_type ov))
                     (typeString L mtyp ps (var_type (mf_field (Fields mtyp ! i))))))"
    if "\<not> var_anonymous ov \<and> var_exported ov \<and> fieldByName mtyp (var_name ov) = Some i"
    using that by (simp add: loadOverride_def Let_def)
  show "\<forall>(ov, tg)\<in>set ovs. \<exists>i. fieldByName mtyp (var_name ov) = Some i \<and>
            ConvertibleTo L (var_type ov) (var_type (mf_field (Fields mtyp ! i)))"
    if "loadOverrides L ps mtyp ovs = Inr mtyp'"
    using loadOverrides_checked[OF that] by auto
qed

text \<open>
  On \<^verbatim>\<open>Item\<close> with the override \<^verbatim>\<open>ItemWeight\<close>: \<^verbatim>\<open>int64\<close> converts to \<^verbatim>\<open>int\<close>, and the
  wire type of \<^verbatim>\<open>Weight\<close> becomes \<^verbatim>\<open>*int64\<close>. With the override \<^verbatim>\<open>ItemFlag\<close>:
  \<^verbatim>\<open>bool\<close> does not convert to \<^verbatim>\<open>int\<close>, and the run ends with the error.
\<close>

theorem loadOverrides_convertible_witness:
  "map mf_typ (Fields (projr (loadOverride sampleLib example_pkgs (fst (newMarshalerType Item)) (fst (hd ItemWeight_fields)))))
     = [Pointer (Basic ''string''), Pointer (Basic ''string''), Pointer (Basic ''int64''),
        Pointer (Basic ''string''), Pointer (Basic ''string''), Pointer (Named (Some 1) ''Int'')]
   \<and> ConvertibleTo sampleLib (Basic ''int64'') (var_type (mf_field (Fields (fst (newMarshalerType Item)) ! 2)))
   \<and> loadOverride sampleLib example_pkgs (fst (newMarshalerType Item)) (fst (hd ItemFlag_fields))
     = Inl (NotConvertible ''item.go:22:23'' ''bool'' ''int'')"
proof -
  let ?m = "fst (newMarshalerType Item)"
  let ?ov = "fst (hd ItemWeight_fields)"
  let ?bad = "fst (hd ItemFlag_fields)"
  note F = loadOverrides_convertible[of ?bad ?m 2 sampleLib example_pkgs]
  have g1: "\<not> var_anonymous ?bad \<and> var_exported ?bad \<and> fieldByName ?m (var_name ?bad) = Some 2"
    by code_simp
  have g2: "\<not> ConvertibleTo sampleLib (var_type ?bad) (var_type (mf_field (Fields ?m ! 2)))"
    by code_simp
  from F[THEN conjunct1, THEN mp, OF g1] g2
  have bad: "loadOverride sampleLib example_pkgs ?m ?bad =
      Inl (NotConvertible (var_pos ?bad) (typeString sampleLib ?m example_pkgs (var_type ?bad))
             (typeString sampleLib ?m example_pkgs (var_type (mf_field (Fields ?m ! 2)))))"
    by (simp only: if_False)
  have msg: "NotConvertible (var_pos ?bad) (typeString sampleLib ?m example_pkgs (var_type ?bad))
             (typeString sampleLib ?m example_pkgs (var_type (mf_field (Fields ?m ! 2))))
     = NotConvertible ''item.go:22:23'' ''bool'' ''int''"
    by code_simp
  from bad msg have failing: "loadOverride sampleLib example_pkgs ?m ?bad
     = Inl (NotConvertible ''item.go:22:23'' ''bool'' ''int'')"
    by (simp only:)
  let ?r = "loadOverrides sampleLib example_pkgs ?m ItemWeight_fields"
  note T = loadOverrides_convertible[of ?ov ?m 2 sampleLib example_pkgs ItemWeight_fields "projr ?r"]
  have h1: "\<not> var_anonymous ?ov \<and> var_exported ?ov \<and> fieldByName ?m (var_name ?ov) = Some 2"
    by code_simp
  have h2: "?r = Inr (projr ?r)"
    by code_simp
  have c: "ConvertibleTo sampleLib (var_type ?ov) (var_type (mf_field (Fields ?m ! 2)))"
  proof -
    from T h2 have "\<forall>(ov, tg)\<in>set ItemWeight_fields. \<exists>i. fieldByName ?m (var_name ov) = Some i \<and>
            ConvertibleTo sampleLib (var_type ov) (var_type (mf_field (Fields ?m ! i)))"
      by blast
    then obtain i where "fieldByName ?m (var_name ?ov) = Some i"
      "ConvertibleTo sampleLib (var_type ?ov) (var_type (mf_field (Fields ?m ! i)))"
      by (auto simp: ItemWeight_fields_def)
    with h1 show ?thesis by simp
  qed
  from T[THEN conjunct1, THEN mp, OF h1] c
  have step: "loadOverride sampleLib example_pkgs ?m ?ov =
      Inr (?m\<lparr>Fields := (Fields ?m)[2 := (Fields ?m ! 2)\<lparr>mf_typ := ensurePointer (var_type ?ov)\<rparr>]\<rparr>)"
    by (simp only: if_True)
  have types: "map mf_typ ((Fields ?m)[2 := (Fields ?m ! 2)\<lparr>mf_typ := ensurePointer (var_type ?ov)\<rparr>])
     = [Pointer (Basic ''string''), Pointer (Basic ''string''), Pointer (Basic ''int64''),
        Pointer (Basic ''string''), Pointer (Basic ''string''), Pointer (Named (Some 1) ''Int'')]"
    by code_simp
  have ty: "var_type ?ov = Basic ''int64''" by code_simp
  from step types have typed: "map mf_typ (Fields (projr (loadOverride sampleLib example_pkgs ?m ?ov)))
     = [Pointer (Basic ''string''), Pointer (Basic ''string''), Pointer (Basic ''int64''),
        Pointer (Basic ''string''), Pointer (Basic ''string''), Pointer (Named (Some 1) ''Int'')]"
    by simp
  from c ty have conv: "ConvertibleTo sampleLib (Basic ''int64'') (var_type (mf_field (Fields ?m ! 2)))"
    by simp
  show ?thesis
    by (intro conjI) (fact typed, fact conv, fact failing)
qed

text \<open>
  C1 as stated does not hold. With the override \<^verbatim>\<open>ItemID\<close> on \<^verbatim>\<open>Item\<close> the override type
  \<^verbatim>\<open>int\<close> converts to the declared type \<^verbatim>\<open>string\<close> of \<^verbatim>\<open>ID\<close>, so \<^verbatim>\<open>loadOverrides\<close>
  succeeds and the wire type of \<^verbatim>\<open>ID\<close> becomes \<^verbatim>\<open>*int\<close>; but \<^verbatim>\<open>string\<close> does not
  convert to \<^verbatim>\<open>int\<close>, and neither pointer form converts to the other.
\<close>

theorem loadOverrides_counterexample:
  "map_sum id (\<lambda>m. map mf_typ (Fields m))
     (loadOverrides sampleLib example_pkgs (fst (newMarshalerType Item)) ItemID_fields)
   = Inr [Pointer (Basic ''int''), Pointer (Basic ''string''), Pointer (Basic ''int''),
          Pointer (Basic ''string''), Pointer (Basic ''string''), Pointer (Named (Some 1) ''Int'')]
   \<and> var_type (fst (hd ItemID_fields)) = Basic ''int''
   \<and> var_type (mf_field (Fields (fst (newMarshalerType Item)) ! 0)) = Basic ''string''
   \<and> \<not> ConvertibleTo sampleLib (Basic ''string'') (Basic ''int'')
   \<and> \<not> ConvertibleTo sampleLib (ensurePointer (Basic ''string'')) (ensurePointer (Basic ''int''))
   \<and> \<not> ConvertibleTo sampleLib (ensurePointer (Basic ''int'')) (ensurePointer (Basic ''string''))"
  by code_simp

subsection \<open>The import table\<close>

lemma map_of_replace_other:
  "x \<noteq> k \<Longrightarrow> map_of (map (\<lambda>(k', v'). if k' = k then (k', v) else (k', v')) m) x = map_of m x"
  by (induction m) auto

lemma map_of_replace_key:
  "k \<in> set (map fst m) \<Longrightarrow> map_of (map (\<lambda>(k', v'). if k' = k then (k', v) else (k', v')) m) k = Some v"
  by (induction m) auto

lemma map_of_insert_mid:
  "k \<notin> fst ` set xs \<Longrightarrow> map_of (xs @ (k, v) # ys) = (map_of (xs @ ys))(k \<mapsto> v)"
  by (induction xs) (auto simp: fun_upd_twist)

lemma map_of_map_store: "map_of (map_store ly m k v) = (map_of m)(k \<mapsto> v)"
proof (cases "k \<in> set (map fst m)")
  case True
  have "map_of (map (\<lambda>(k', v'). if k' = k then (k', v) else (k', v')) m) x = ((map_of m)(k \<mapsto> v)) x" for x
    using True map_of_replace_key[of k m v] map_of_replace_other[of x k v m] by (cases "x = k") simp_all
  then have "map_of (map (\<lambda>(k', v'). if k' = k then (k', v) else (k', v')) m) = (map_of m)(k \<mapsto> v)"
    by (rule ext)
  with True show ?thesis by (simp add: map_store_def)
next
  case False
  define i where "i = ly m k mod (length m + 1)"
  have notin: "k \<notin> fst ` set (take i m)"
    using False by (auto dest: in_set_takeD)
  from map_of_insert_mid[OF notin, of v "drop i m"]
  have "map_of (take i m @ (k, v) # drop i m) = (map_of m)(k \<mapsto> v)"
    by (simp only: append_take_drop_id)
  with False show ?thesis by (simp add: map_store_def Let_def i_def)
qed

lemma distinct_map_store:
  assumes d: "distinct (map fst m)"
  shows "distinct (map fst (map_store ly m k v))"
proof (cases "k \<in> set (map fst m)")
  case True
  have e: "map fst (map (\<lambda>(k', v'). if k' = k then (k', v) else (k', v')) m) = map fst m"
    by (induction m) auto
  from True have "map_store ly m k v = map (\<lambda>(k', v'). if k' = k then (k', v) else (k', v')) m"
    by (simp add: map_store_def)
  then have "map fst (map_store ly m k v) = map fst m"
    using e by (simp only:)
  then show ?thesis using d by (simp only:)
next
  case False
  define i where "i = ly m k mod (length m + 1)"
  have "map fst (take i m) @ map fst (drop i m) = map fst m"
    by (metis append_take_drop_id map_append)
  then have dAB: "distinct (map fst (take i m) @ map fst (drop i m))"
    using d by (simp only:)
  have "k \<notin> set (map fst (take i m))" "k \<notin> set (map fst (drop i m))"
    using False by (auto dest: in_set_takeD in_set_dropD)
  with dAB have "distinct (map fst (take i m @ (k, v) # drop i m))"
    by auto
  with False show ?thesis by (simp add: map_store_def Let_def i_def)
qed

lemma map_index_map_store:
  "map_index (map_store ly m k v) k' = (if k' = k then v else map_index m k')"
  by (simp add: map_index_def map_of_map_store)

lemma SetName_twice: "SetName p n (SetName p n' ps) = SetName p n ps"
  by (simp add: SetName_def)

text \<open>
  C2, amended: \<^verbatim>\<open>add\<close> leaves a package alone only when its name is already bound to its
  own path. In every other case, that is when the name is not bound at all or is bound to
  a different path, a package of a field type (a non-nil package) is renamed: the marker
  \<^verbatim>\<open>_\<close> is put before its name, and if the name with the marker is bound already, \<^verbatim>\<open>_\<close> and
  the counter are appended and the counter goes up by one. The new name is given to the
  package with \<^verbatim>\<open>SetName\<close> and bound to the path in the table. The two fixed packages,
  which are added without a package object, are bound under their own names.
\<close>

theorem add_renames:
  "(map_index (seen s) name = path \<longrightarrow> add ly name path pkg s = Inr s)
   \<and> (map_index (seen s) name \<noteq> path \<and> map_index (seen s) (''_'' @ name) = '''' \<longrightarrow>
        add ly name path (Some p) s =
          Inr (s\<lparr>pkgs := SetName p (''_'' @ name) (pkgs s),
                 seen := map_store ly (seen s) (''_'' @ name) path\<rparr>))
   \<and> (map_index (seen s) name \<noteq> path \<and> map_index (seen s) (''_'' @ name) \<noteq> '''' \<longrightarrow>
        add ly name path (Some p) s =
          Inr (s\<lparr>counter := counter s + 1,
                 pkgs := SetName p (''_'' @ name @ ''_'' @ Itoa (counter s)) (pkgs s),
                 seen := map_store ly (seen s) (''_'' @ name @ ''_'' @ Itoa (counter s)) path\<rparr>))
   \<and> (map_index (seen s) name \<noteq> path \<and> map_index (seen s) name = '''' \<longrightarrow>
        add ly name path None s = Inr (s\<lparr>seen := map_store ly (seen s) name path\<rparr>))
   \<and> map_index (map_store ly (seen s) alias path) k = (if k = alias then path else map_index (seen s) k)"
  by (simp add: add_def Let_def SetName_twice map_index_map_store)

text \<open>
  On the table of \<^verbatim>\<open>Item\<close>: \<^verbatim>\<open>math/big\<close> under a name that is not bound, a second package
  named \<^verbatim>\<open>big\<close> once \<^verbatim>\<open>_big\<close> is bound, \<^verbatim>\<open>math/big\<close> again under its new name, and a
  package without an object.
\<close>

theorem add_renames_witness:
  "map_sum id (\<lambda>s. (seen s, counter s, pkg_name (pkgs s 1)))
      (add layout_last ''big'' ''math/big'' (Some 1) imports_seeded)
     = Inr ([(''json'', ''encoding/json''), (''errors'', ''errors''), (''_big'', ''math/big'')], 0, ''_big'')
   \<and> map_sum id (\<lambda>s. (seen s, counter s, pkg_name (pkgs s 2)))
      (add layout_last ''big'' ''other/big'' (Some 2) imports_Item)
     = Inr ([(''json'', ''encoding/json''), (''errors'', ''errors''), (''_big'', ''math/big''),
             (''_big_0'', ''other/big'')], 1, ''_big_0'')
   \<and> add layout_last ''_big'' ''math/big'' (Some 1) imports_Item = Inr imports_Item
   \<and> map_sum id seen (add layout_last ''yaml'' ''gopkg.in/yaml.v2'' None imports_seeded)
     = Inr [(''json'', ''encoding/json''), (''errors'', ''errors''), (''yaml'', ''gopkg.in/yaml.v2'')]"
proof -
  note fresh = add_renames[of imports_seeded "''big''" "''math/big''" layout_last "Some 1" 1]
  note clash = add_renames[of imports_Item "''big''" "''other/big''" layout_last "Some 2" 2]
  note bound = add_renames[of imports_Item "''_big''" "''math/big''" layout_last "Some 1" 1]
  note fixed = add_renames[of imports_seeded "''yaml''" "''gopkg.in/yaml.v2''" layout_last None 1]
  have h1: "map_index (seen imports_seeded) ''big'' \<noteq> ''math/big''
            \<and> map_index (seen imports_seeded) (''_'' @ ''big'') = ''''"
    by code_simp
  have h2: "map_index (seen imports_Item) ''big'' \<noteq> ''other/big''
            \<and> map_index (seen imports_Item) (''_'' @ ''big'') \<noteq> ''''"
    by code_simp
  have h3: "map_index (seen imports_Item) ''_big'' = ''math/big''"
    by code_simp
  have h4: "map_index (seen imports_seeded) ''yaml'' \<noteq> ''gopkg.in/yaml.v2''
            \<and> map_index (seen imports_seeded) ''yaml'' = ''''"
    by code_simp
  from fresh h1 have r1: "add layout_last ''big'' ''math/big'' (Some 1) imports_seeded =
      Inr (imports_seeded\<lparr>pkgs := SetName 1 (''_'' @ ''big'') (pkgs imports_seeded),
             seen := map_store layout_last (seen imports_seeded) (''_'' @ ''big'') ''math/big''\<rparr>)"
    by blast
  from clash h2 have r2: "add layout_last ''big'' ''other/big'' (Some 2) imports_Item =
      Inr (imports_Item\<lparr>counter := counter imports_Item + 1,
             pkgs := SetName 2 (''_'' @ ''big'' @ ''_'' @ Itoa (counter imports_Item)) (pkgs imports_Item),
             seen := map_store layout_last (seen imports_Item)
                       (''_'' @ ''big'' @ ''_'' @ Itoa (counter imports_Item)) ''other/big''\<rparr>)"
    by blast
  from bound h3 have r3: "add layout_last ''_big'' ''math/big'' (Some 1) imports_Item = Inr imports_Item"
    by blast
  from fixed h4 have r4: "add layout_last ''yaml'' ''gopkg.in/yaml.v2'' None imports_seeded =
      Inr (imports_seeded\<lparr>seen := map_store layout_last (seen imports_seeded) ''yaml'' ''gopkg.in/yaml.v2''\<rparr>)"
    by blast
  have e1: "map_sum id (\<lambda>s. (seen s, counter s, pkg_name (pkgs s 1)))
      (Inr (imports_seeded\<lparr>pkgs := SetName 1 (''_'' @ ''big'') (pkgs imports_seeded),
             seen := map_store layout_last (seen imports_seeded) (''_'' @ ''big'') ''math/big''\<rparr>) :: error + import_state)
     = Inr ([(''json'', ''encoding/json''), (''errors'', ''errors''), (''_big'', ''math/big'')], 0, ''_big'')"
    by code_simp
  have e2: "map_sum id (\<lambda>s. (seen s, counter s, pkg_name (pkgs s 2)))
      (Inr (imports_Item\<lparr>counter := counter imports_Item + 1,
             pkgs := SetName 2 (''_'' @ ''big'' @ ''_'' @ Itoa (counter imports_Item)) (pkgs imports_Item),
             seen := map_store layout_last (seen imports_Item)
                       (''_'' @ ''big'' @ ''_'' @ Itoa (counter imports_Item)) ''other/big''\<rparr>) :: error + import_state)
     = Inr ([(''json'', ''encoding/json''), (''errors'', ''errors''), (''_big'', ''math/big''),
             (''_big_0'', ''other/big'')], 1, ''_big_0'')"
    by code_simp
  have e4: "map_sum id seen
      (Inr (imports_seeded\<lparr>seen := map_store layout_last (seen imports_seeded) ''yaml'' ''gopkg.in/yaml.v2''\<rparr>) :: error + import_state)
     = Inr [(''json'', ''encoding/json''), (''errors'', ''errors''), (''yaml'', ''gopkg.in/yaml.v2'')]"
    by code_simp
  from r1 e1 r2 e2 r3 r4 e4 show ?thesis by (simp only:)
qed

text \<open>
  C2 as stated does not hold. In \<^verbatim>\<open>computeImports\<close> on \<^verbatim>\<open>Item\<close> the package \<^verbatim>\<open>math/big\<close>
  arrives with the name \<^verbatim>\<open>big\<close>, which the table of the two fixed packages does not bind;
  the package is renamed to \<^verbatim>\<open>_big\<close> all the same, and that name is imported.
\<close>

theorem computeImports_counterexample:
  "map_sum id (\<lambda>s. (range_map (seen s), pkg_name (pkgs s 1)))
      (computeImports layout_first (fst (newMarshalerType Item)) example_pkgs)
   = Inr ([(''_big'', ''math/big''), (''errors'', ''errors''), (''json'', ''encoding/json'')], ''_big'')
   \<and> pkg_name (example_pkgs 1) = ''big''
   \<and> pkg_path (example_pkgs 1) = ''math/big''
   \<and> map_index [(''errors'', ''errors''), (''json'', ''encoding/json'')] ''big'' = ''''"
  by code_simp

lemma add_same:
  assumes "same_imports s t"
  shows "rel_sum (=) same_imports (add ly1 name path pkg s) (add ly2 name path pkg t)"
proof -
  from assms have mi: "\<And>k. map_index (seen s) k = map_index (seen t) k"
    and c: "counter s = counter t" and p: "pkgs s = pkgs t"
    and st: "\<And>k v. map_of (map_store ly1 (seen s) k v) = map_of (map_store ly2 (seen t) k v)"
    and d: "\<And>k v. distinct (map fst (map_store ly1 (seen s) k v))"
           "\<And>k v. distinct (map fst (map_store ly2 (seen t) k v))"
    by (auto simp: same_imports_def map_index_def map_of_map_store distinct_map_store)
  show ?thesis
    using assms by (cases pkg) (simp_all add: add_def Let_def mi c p same_imports_def st d)
qed

lemma addNamed_same:
  assumes "same_imports s t"
  shows "rel_sum (=) same_imports (addNamed ly1 mtyp pkg n s) (addNamed ly2 mtyp pkg n t)"
proof -
  from assms have p: "pkgs s = pkgs t" by (simp add: same_imports_def)
  show ?thesis
    using assms add_same[OF assms] by (cases pkg) (simp_all add: addNamed_def p)
qed

lemma rel_seq:
  assumes "rel_sum (=) R r1 r2"
    and "\<And>x y. R x y \<Longrightarrow> rel_sum (=) R (f x) (g y)"
  shows "rel_sum (=) R (case r1 of Inl e \<Rightarrow> Inl e | Inr x \<Rightarrow> f x) (case r2 of Inl e \<Rightarrow> Inl e | Inr y \<Rightarrow> g y)"
  using assms by (cases r1; cases r2) simp_all

lemma rel_and_then:
  assumes "rel_sum (=) R r1 r2"
    and "\<And>x y. R x y \<Longrightarrow> rel_sum (=) R (f x) (g y)"
  shows "rel_sum (=) R (and_then r1 f) (and_then r2 g)"
  unfolding and_then_def using assms by (rule rel_seq)

lemma walk_same:
  fixes cb1 cb2 :: "pkgref option \<Rightarrow> string \<Rightarrow> import_state \<Rightarrow> error + import_state"
  assumes cb: "\<And>pkg n s t. same_imports s t \<Longrightarrow> rel_sum (=) same_imports (cb1 pkg n s) (cb2 pkg n t)"
  shows "same_imports s t \<Longrightarrow> rel_sum (=) same_imports (walkNamedTypes cb1 ty s) (walkNamedTypes cb2 ty t)"
proof (induction ty arbitrary: s t)
  case (MapT k e)
  show ?case
    using MapT.IH(1)[OF MapT.prems] MapT.IH(2) by (simp add: rel_seq)
next
  case (Struct fts)
  have "rel_sum (=) same_imports (walkStructFields cb1 fts s) (walkStructFields cb2 fts t)"
    using Struct.IH Struct.prems
  proof (induction fts arbitrary: s t)
    case Nil
    then show ?case by simp
  next
    case (Cons a fts)
    have first: "rel_sum (=) same_imports (walkNamedTypes cb1 a s) (walkNamedTypes cb2 a t)"
      using Cons.prems by simp
    have rest: "rel_sum (=) same_imports (walkStructFields cb1 fts x) (walkStructFields cb2 fts y)"
      if "same_imports x y" for x y
      using Cons.IH[OF _ that] Cons.prems(1) by simp
    show ?case
      using first rest by (simp add: rel_seq)
  qed
  then show ?case by simp
qed (simp_all add: cb)

lemma loop_same:
  "same_imports s t \<Longrightarrow>
     rel_sum (=) same_imports (computeImports_loop ly1 mtyp fs s) (computeImports_loop ly2 mtyp fs t)"
proof (induction fs arbitrary: s t)
  case Nil
  then show ?case by simp
next
  case (Cons f fs)
  have w: "rel_sum (=) same_imports (walkNamedTypes (addNamed ly1 mtyp) ty x)
             (walkNamedTypes (addNamed ly2 mtyp) ty y)" if "same_imports x y" for x y ty
    using walk_same[of "addNamed ly1 mtyp" "addNamed ly2 mtyp" x y ty, OF addNamed_same that] .
  show ?case
    using Cons.prems Cons.IH w by (simp add: rel_and_then)
qed

lemma computeImports_same:
  "rel_sum (=) same_imports (computeImports ly1 mtyp ps) (computeImports ly2 mtyp ps)"
proof -
  have init: "same_imports \<lparr>seen = [], counter = 0, pkgs = ps\<rparr> \<lparr>seen = [], counter = 0, pkgs = ps\<rparr>"
    by (simp add: same_imports_def)
  show ?thesis
    unfolding computeImports_def
    by (intro rel_and_then add_same init loop_same)
qed

lemma range_map_same:
  assumes "same_imports s t"
  shows "range_map (seen s) = range_map (seen t)"
proof -
  from assms have m: "map_of (seen s) = map_of (seen t)"
    and d: "distinct (map fst (seen s))" "distinct (map fst (seen t))"
    by (simp_all add: same_imports_def)
  have "set (map fst (seen s)) = dom (map_of (seen s))" by (simp add: dom_map_of_conv_image_fst)
  also have "\<dots> = set (map fst (seen t))" by (simp add: m dom_map_of_conv_image_fst)
  finally have "set (sort (map fst (seen s))) = set (sort (map fst (seen t)))" by simp
  moreover have "distinct (sort (map fst (seen s)))" "distinct (sort (map fst (seen t)))"
    using d by simp_all
  ultimately have "sort (map fst (seen s)) = sort (map fst (seen t))"
    by (intro sorted_distinct_set_unique) simp_all
  moreover have "map_index (seen s) = map_index (seen t)"
    using m by (auto simp: map_index_def)
  ultimately show ?thesis by (simp add: range_map_def)
qed

text \<open>
  C9: \<^verbatim>\<open>computeImports\<close> and the import block are deterministic. Whatever order the Go
  map keeps its keys in (any two layouts), two runs on the same marshaling type and the
  same packages end alike: both fail with the same error, or both succeed with the same
  import block (the same lines in the same order), the same bindings in the table and the
  same name for every package.
\<close>

theorem computeImports_deterministic:
  "map_sum id (\<lambda>s. (import_block (seen s), range_map (seen s), pkgs s)) (computeImports ly1 mtyp ps)
   = map_sum id (\<lambda>s. (import_block (seen s), range_map (seen s), pkgs s)) (computeImports ly2 mtyp ps)"
proof -
  have "rel_sum (=) same_imports (computeImports ly1 mtyp ps) (computeImports ly2 mtyp ps)"
    by (rule computeImports_same)
  then show ?thesis
  proof (cases "computeImports ly1 mtyp ps"; cases "computeImports ly2 mtyp ps")
    fix s t
    assume r: "computeImports ly1 mtyp ps = Inr s" "computeImports ly2 mtyp ps = Inr t"
      and "rel_sum (=) same_imports (computeImports ly1 mtyp ps) (computeImports ly2 mtyp ps)"
    then have same: "same_imports s t" by simp
    from range_map_same[OF same] same r show ?thesis
      by (simp add: import_block_def same_imports_def)
  qed simp_all
qed

text \<open>
  On \<^verbatim>\<open>Item\<close>, the two layouts keep the table in different orders and give the same import
  block.
\<close>

theorem computeImports_deterministic_witness:
  "import_block (seen (projr (computeImports layout_first (fst (newMarshalerType Item)) example_pkgs)))
     = import_block (seen (projr (computeImports layout_last (fst (newMarshalerType Item)) example_pkgs)))
   \<and> seen (projr (computeImports layout_first (fst (newMarshalerType Item)) example_pkgs))
     = [(''_big'', ''math/big''), (''errors'', ''errors''), (''json'', ''encoding/json'')]
   \<and> seen (projr (computeImports layout_last (fst (newMarshalerType Item)) example_pkgs))
     = [(''json'', ''encoding/json''), (''errors'', ''errors''), (''_big'', ''math/big'')]"
proof -
  let ?a = "computeImports layout_first (fst (newMarshalerType Item)) example_pkgs"
  let ?b = "computeImports layout_last (fst (newMarshalerType Item)) example_pkgs"
  note T = computeImports_deterministic[of layout_first "fst (newMarshalerType Item)" example_pkgs layout_last]
  have "\<not> isl ?a" by code_simp
  then have a: "?a = Inr (projr ?a)" by simp
  have "\<not> isl ?b" by code_simp
  then have b: "?b = Inr (projr ?b)" by simp
  from T have "map_sum id (\<lambda>s. (import_block (seen s), range_map (seen s), pkgs s)) (Inr (projr ?a))
      = map_sum id (\<lambda>s. (import_block (seen s), range_map (seen s), pkgs s)) (Inr (projr ?b) :: error + import_state)"
    using a b by (simp only:)
  then have "import_block (seen (projr ?a)) = import_block (seen (projr ?b))"
    by simp
  moreover have "seen (projr ?a) = [(''_big'', ''math/big''), (''errors'', ''errors''), (''json'', ''encoding/json'')]"
    by code_simp
  moreover have "seen (projr ?b) = [(''json'', ''encoding/json''), (''errors'', ''errors''), (''_big'', ''math/big'')]"
    by code_simp
  ultimately show ?thesis by (simp only:)
qed

subsection \<open>Conversions\<close>

text \<open>
  C3: the conversion expression. If \<open>from\<close> is a pointer and \<open>to\<close> is not, the value is
  dereferenced and \<open>from\<close> becomes its element type; if \<open>from\<close> is not a pointer and
  \<open>to\<close> is, the address of the value is taken and \<open>from\<close> becomes the pointer to it;
  otherwise both stay. Then the result is the expression as it stands if \<open>from\<close> is
  assignable to \<open>to\<close>, and else the conversion \<^verbatim>\<open>(T)(expr)\<close> with \<^verbatim>\<open>T\<close> the text of \<open>to\<close>.
\<close>

theorem conversionExpr_rules:
  "(from = Pointer elem \<and> \<not> isPointer to \<longrightarrow>
      conversionExpr L mtyp ps e from to =
        (if AssignableTo L elem to then ''*'' @ e
         else ''('' @ typeString L mtyp ps to @ '')('' @ ''*'' @ e @ '')''))
   \<and> (\<not> isPointer from \<and> isPointer to \<longrightarrow>
      conversionExpr L mtyp ps e from to =
        (if AssignableTo L (Pointer from) to then ''&'' @ e
         else ''('' @ typeString L mtyp ps to @ '')('' @ ''&'' @ e @ '')''))
   \<and> (isPointer from = isPointer to \<longrightarrow>
      conversionExpr L mtyp ps e from to =
        (if AssignableTo L from to then e
         else ''('' @ typeString L mtyp ps to @ '')('' @ e @ '')''))"
  by (cases "from") (auto simp: conversionExpr_def)

theorem conversionExpr_rules_witness:
  "conversionExpr sampleLib (fst (newMarshalerType Item)) example_pkgs ''dec.Weight''
      (Pointer (Basic ''int64'')) (Basic ''int'') = ''(int)(*dec.Weight)''
   \<and> conversionExpr sampleLib (fst (newMarshalerType Item)) example_pkgs ''x.ID''
      (Basic ''string'') (Pointer (Basic ''string'')) = ''&x.ID''
   \<and> conversionExpr sampleLib (fst (newMarshalerType Item)) example_pkgs ''x.Amount''
      (Pointer (Named (Some 1) ''Int'')) (Pointer (Named (Some 1) ''Int'')) = ''x.Amount''"
  using conversionExpr_rules[of "Pointer (Basic ''int64'')" "Basic ''int64''" "Basic ''int''"
      sampleLib "fst (newMarshalerType Item)" example_pkgs "''dec.Weight''"]
    conversionExpr_rules[of "Basic ''string''" _ "Pointer (Basic ''string'')"
      sampleLib "fst (newMarshalerType Item)" example_pkgs "''x.ID''"]
    conversionExpr_rules[of "Pointer (Named (Some 1) ''Int'')" _ "Pointer (Named (Some 1) ''Int'')"
      sampleLib "fst (newMarshalerType Item)" example_pkgs "''x.Amount''"]
  by (simp add: sampleLib_def sample_AssignableTo_def typeString_def)

subsection \<open>Struct tags\<close>

lemma HasPrefix_dash: "HasPrefix s ''-'' \<longleftrightarrow> (\<exists>rest. s = ''-'' @ rest)"
  by (cases s) (auto simp: HasPrefix_def)

text \<open>
  C6: a field is optional for a format exactly when the value of the \<^verbatim>\<open>optional\<close> key of
  its tag is \<^verbatim>\<open>true\<close> or \<^verbatim>\<open>yes\<close>, or the value of the key of the format begins with
  \<^verbatim>\<open>-\<close>. In every other case it is required.
\<close>

theorem isOptional_iff:
  "isOptional L mf format \<longleftrightarrow>
     StructTag_Get L (mf_tag mf) ''optional'' = ''true''
     \<or> StructTag_Get L (mf_tag mf) ''optional'' = ''yes''
     \<or> (\<exists>rest. StructTag_Get L (mf_tag mf) format = ''-'' @ rest)"
  by (simp add: isOptional_def Let_def HasPrefix_dash)

text \<open>The fields of \<^verbatim>\<open>Item\<close>: \<^verbatim>\<open>Note\<close> and \<^verbatim>\<open>Skip\<close> are optional for JSON.\<close>

lemma Item_isOptional:
  "map (\<lambda>mf. isOptional sampleLib mf ''json'') (Fields (fst (newMarshalerType Item)))
     = [False, False, False, True, True, False]"
  by code_simp

lemma Index_ge: "- 1 \<le> Index s sep"
  by (induction s) (auto simp: Let_def)

lemma Index_take: "Index s sep \<noteq> -1 \<Longrightarrow> take (nat (Index s sep)) s = takeWhile (\<lambda>c. c \<noteq> sep) s"
proof (induction s)
  case Nil
  then show ?case by simp
next
  case (Cons a s)
  show ?case
  proof (cases "a = sep")
    case True
    then show ?thesis by simp
  next
    case False
    with Cons.prems have ne: "Index s sep \<noteq> -1"
      by (auto simp: Let_def split: if_splits)
    with Index_ge[of s sep] have "0 \<le> Index s sep" by linarith
    then have "nat (Index s sep + 1) = Suc (nat (Index s sep))" by linarith
    with False ne Cons.IH show ?thesis by (simp add: Let_def)
  qed
qed

lemma Index_none: "Index s sep = -1 \<Longrightarrow> takeWhile (\<lambda>c. c \<noteq> sep) s = s"
proof (induction s)
  case Nil
  then show ?case by simp
next
  case (Cons a s)
  from Cons.prems have "a \<noteq> sep" by (auto split: if_splits)
  moreover from Cons.prems this have "Index s sep = -1"
    using Index_ge[of s sep] by (auto simp: Let_def split: if_splits)
  ultimately show ?case using Cons.IH by simp
qed

lemma comma_cut:
  "(if Index v sep \<noteq> -1 then take (nat (Index v sep)) v else v) = takeWhile (\<lambda>c. c \<noteq> sep) v"
  by (simp add: Index_take Index_none)

text \<open>
  C7, amended: the encoded name of a field is the text of the value of the format's key
  before the first comma (the whole value when it has no comma). When that text is empty
  or is \<^verbatim>\<open>-\<close>, the encoded name is the name of the field with its first character in
  lower case, for a name whose first character is one byte (an ASCII character). The
  fall-back looks at the text before the comma, not at the whole value: it also applies to
  a value such as \<^verbatim>\<open>,omitempty\<close>. Nothing is said here of the fall-back for a name that
  begins with a character of several bytes.
\<close>

theorem encodedName_eq:
  "(takeWhile (\<lambda>c. c \<noteq> CHR '','') (StructTag_Get L (mf_tag mf) format) \<noteq> ''''
      \<and> takeWhile (\<lambda>c. c \<noteq> CHR '','') (StructTag_Get L (mf_tag mf) format) \<noteq> ''-''
    \<longrightarrow> encodedName L mf format =
          Inr (takeWhile (\<lambda>c. c \<noteq> CHR '','') (StructTag_Get L (mf_tag mf) format)))
   \<and> ((takeWhile (\<lambda>c. c \<noteq> CHR '','') (StructTag_Get L (mf_tag mf) format) = ''''
        \<or> takeWhile (\<lambda>c. c \<noteq> CHR '','') (StructTag_Get L (mf_tag mf) format) = ''-'')
      \<and> var_name (mf_field mf) = c # cs \<and> c < CHR 0x80
    \<longrightarrow> encodedName L mf format = Inr (ToLower L [c] @ cs))"
  by (simp add: encodedName_def Let_def comma_cut uncapitalize_def field_Name_def)

text \<open>
  On \<^verbatim>\<open>Item\<close>: \<^verbatim>\<open>Weight\<close> has the tag \<^verbatim>\<open>json:"wt,omitempty"\<close>, and \<^verbatim>\<open>Skip\<close> has the tag
  \<^verbatim>\<open>json:"-"\<close> and a name that begins with the ASCII letter \<^verbatim>\<open>S\<close>.
\<close>

theorem encodedName_eq_witness:
  "encodedName sampleLib (Fields (fst (newMarshalerType Item)) ! 2) ''json'' = Inr ''wt''
   \<and> encodedName sampleLib (Fields (fst (newMarshalerType Item)) ! 4) ''json'' = Inr ''skip''"
proof -
  let ?w = "Fields (fst (newMarshalerType Item)) ! 2"
  let ?s = "Fields (fst (newMarshalerType Item)) ! 4"
  note W = encodedName_eq[of sampleLib ?w "''json''", THEN conjunct1]
  note S = encodedName_eq[of sampleLib ?s "''json''" "CHR ''S''" "''kip''", THEN conjunct2]
  have w1: "takeWhile (\<lambda>c. c \<noteq> CHR '','') (StructTag_Get sampleLib (mf_tag ?w) ''json'') \<noteq> ''''
      \<and> takeWhile (\<lambda>c. c \<noteq> CHR '','') (StructTag_Get sampleLib (mf_tag ?w) ''json'') \<noteq> ''-''"
    by code_simp
  have w2: "takeWhile (\<lambda>c. c \<noteq> CHR '','') (StructTag_Get sampleLib (mf_tag ?w) ''json'') = ''wt''"
    by code_simp
  have s1: "(takeWhile (\<lambda>c. c \<noteq> CHR '','') (StructTag_Get sampleLib (mf_tag ?s) ''json'') = ''''
        \<or> takeWhile (\<lambda>c. c \<noteq> CHR '','') (StructTag_Get sampleLib (mf_tag ?s) ''json'') = ''-'')
      \<and> var_name (mf_field ?s) = CHR ''S'' # ''kip'' \<and> CHR ''S'' < CHR 0x80"
    by code_simp
  have s2: "ToLower sampleLib [CHR ''S''] @ ''kip'' = ''skip''"
    by code_simp
  from W[THEN mp, OF w1] w2 have "encodedName sampleLib ?w ''json'' = Inr ''wt''"
    by (simp only:)
  moreover from S[THEN mp, OF s1] s2 have "encodedName sampleLib ?s ''json'' = Inr ''skip''"
    by (simp only:)
  ultimately show ?thesis
    by (intro conjI)
qed

text \<open>
  C7 as stated does not hold. The field \<^verbatim>\<open>Label\<close> of \<^verbatim>\<open>Item\<close> has the tag
  \<^verbatim>\<open>json:",omitempty"\<close>: there is a value, it is not \<^verbatim>\<open>-\<close>, and the text before its first
  comma is empty; the encoded name is \<^verbatim>\<open>label\<close>.
\<close>

theorem encodedName_counterexample:
  "StructTag_Get sampleLib (mf_tag (Fields (fst (newMarshalerType Item)) ! 1)) ''json'' = '',omitempty''
   \<and> takeWhile (\<lambda>c. c \<noteq> CHR '','') '',omitempty'' = ''''
   \<and> encodedName sampleLib (Fields (fst (newMarshalerType Item)) ! 1) ''json'' = Inr ''label''"
  by code_simp

text \<open>
  A name that begins with a character of several bytes: \<^verbatim>\<open>uncapitalize\<close> cuts the character,
  and the two bytes \<^verbatim>\<open>C3 89\<close> of the capital E with acute accent become the replacement
  character followed by the byte \<^verbatim>\<open>89\<close>. The first character is not put in lower case.
\<close>

lemma uncapitalize_cuts_character:
  "uncapitalize sampleLib ([CHR 0xC3, CHR 0x89] @ ''clair'')
     = Inr ([CHR 0xEF, CHR 0xBF, CHR 0xBD, CHR 0x89] @ ''clair'')"
  by code_simp

subsection \<open>Generated methods\<close>

lemma encodedName_total:
  "field_Name mf \<noteq> '''' \<Longrightarrow> encodedName L mf format = Inr (projr (encodedName L mf format))"
  by (cases "field_Name mf") (simp_all add: encodedName_def Let_def uncapitalize_def)

lemma UnmarshalConversions_loop_eq:
  "\<forall>mf\<in>set fs. field_Name mf \<noteq> '''' \<Longrightarrow>
   UnmarshalConversions_loop L mtyp ps formatTag fs s =
     Inr (s @ concat (map (\<lambda>mf.
       (if isOptional L mf formatTag
        then ''if dec.'' @ field_Name mf @ '' != nil {'' @ nl @
             tabs 5 @ ''v.'' @ field_Name mf @ '' = '' @ ConvertBack L mtyp ps mf ''dec'' @ nl @
             tabs 4 @ ''}''
        else ''if dec.'' @ field_Name mf @ '' == nil {'' @ nl @
             tabs 5 @ ''return errors.New('' @ dq @ ''missing required field '' @
               [CHR 0x27] @ projr (encodedName L mf formatTag) @ [CHR 0x27] @
               '' in '' @ ToUpper formatTag @ '' '' @ OrigName mtyp @ dq @ '')'' @ nl @
             tabs 4 @ ''}'' @ nl @
             tabs 4 @ ''v.'' @ field_Name mf @ '' = '' @ ConvertBack L mtyp ps mf ''dec'') @ nl) fs))"
proof (induction fs arbitrary: s)
  case Nil
  show ?case by simp
next
  case (Cons mf fs)
  from Cons.prems have n: "field_Name mf \<noteq> ''''" and rest: "\<forall>mf\<in>set fs. field_Name mf \<noteq> ''''"
    by simp_all
  obtain enc where enc: "encodedName L mf formatTag = Inr enc"
    using encodedName_total[OF n] by blast
  show ?case
    by (simp add: enc Let_def Cons.IH[OF rest])
qed

text \<open>
  C5: the decoding code of \<^verbatim>\<open>UnmarshalConversions\<close> is one piece of text for each field,
  in order, of one of two shapes. For an optional field the converted value is assigned
  inside \<^verbatim>\<open>if dec.F != nil\<close> and nothing else is generated, so a missing value is no
  error. For a required field \<^verbatim>\<open>if dec.F == nil\<close> returns the error
  \<^verbatim>\<open>missing required field '<encoded name>' in <FORMAT> <record name>\<close>, and the
  converted value is assigned after it. (The name of a struct field is never empty.)
\<close>

theorem UnmarshalConversions_shapes:
  assumes "\<forall>mf\<in>set (Fields mtyp). field_Name mf \<noteq> ''''"
  shows "UnmarshalConversions L mtyp ps formatTag =
     Inr (concat (map (\<lambda>mf.
       (if isOptional L mf formatTag
        then ''if dec.'' @ field_Name mf @ '' != nil {'' @ nl @
             tabs 5 @ ''v.'' @ field_Name mf @ '' = '' @ ConvertBack L mtyp ps mf ''dec'' @ nl @
             tabs 4 @ ''}''
        else ''if dec.'' @ field_Name mf @ '' == nil {'' @ nl @
             tabs 5 @ ''return errors.New('' @ dq @ ''missing required field '' @
               [CHR 0x27] @ projr (encodedName L mf formatTag) @ [CHR 0x27] @
               '' in '' @ ToUpper formatTag @ '' '' @ OrigName mtyp @ dq @ '')'' @ nl @
             tabs 4 @ ''}'' @ nl @
             tabs 4 @ ''v.'' @ field_Name mf @ '' = '' @ ConvertBack L mtyp ps mf ''dec'') @ nl)
       (Fields mtyp)))"
  unfolding UnmarshalConversions_def
  using UnmarshalConversions_loop_eq[OF assms, of L mtyp ps formatTag "''''"] by simp

lemma Item_names: "\<forall>mf\<in>set (Fields (fst (newMarshalerType Item))). field_Name mf \<noteq> ''''"
  by code_simp

theorem UnmarshalConversions_shapes_witness:
  "UnmarshalConversions sampleLib (fst (newMarshalerType Item)) example_pkgs ''json'' =
     Inr (''if dec.ID == nil {'' @ nl @
          tabs 5 @ ''return errors.New('' @ dq @ ''missing required field '' @ [CHR 0x27] @ ''iD'' @
            [CHR 0x27] @ '' in JSON Item'' @ dq @ '')'' @ nl @
          tabs 4 @ ''}'' @ nl @
          tabs 4 @ ''v.ID = *dec.ID'' @ nl @
          ''if dec.Label == nil {'' @ nl @
          tabs 5 @ ''return errors.New('' @ dq @ ''missing required field '' @ [CHR 0x27] @ ''label'' @
            [CHR 0x27] @ '' in JSON Item'' @ dq @ '')'' @ nl @
          tabs 4 @ ''}'' @ nl @
          tabs 4 @ ''v.Label = *dec.Label'' @ nl @
          ''if dec.Weight == nil {'' @ nl @
          tabs 5 @ ''return errors.New('' @ dq @ ''missing required field '' @ [CHR 0x27] @ ''wt'' @
            [CHR 0x27] @ '' in JSON Item'' @ dq @ '')'' @ nl @
          tabs 4 @ ''}'' @ nl @
          tabs 4 @ ''v.Weight = *dec.Weight'' @ nl @
          ''if dec.Note != nil {'' @ nl @
          tabs 5 @ ''v.Note = *dec.Note'' @ nl @
          tabs 4 @ ''}'' @ nl @
          ''if dec.Skip != nil {'' @ nl @
          tabs 5 @ ''v.Skip = *dec.Skip'' @ nl @
          tabs 4 @ ''}'' @ nl @
          ''if dec.Amount == nil {'' @ nl @
          tabs 5 @ ''return errors.New('' @ dq @ ''missing required field '' @ [CHR 0x27] @ ''amount'' @
            [CHR 0x27] @ '' in JSON Item'' @ dq @ '')'' @ nl @
          tabs 4 @ ''}'' @ nl @
          tabs 4 @ ''v.Amount = dec.Amount'' @ nl)"
proof -
  note T = UnmarshalConversions_shapes[of "fst (newMarshalerType Item)" sampleLib example_pkgs "''json''"]
  show ?thesis
    unfolding T[OF Item_names]
    by code_simp
qed

text \<open>
  C8: \<^verbatim>\<open>MarshalJSON\<close> and \<^verbatim>\<open>MarshalYAML\<close> fill every field of the wire record, in order,
  with the conversion expression from the declared type of the field of \<^verbatim>\<open>x\<close> to its wire
  type. That expression depends on the package of the original type, the field and its
  wire type only: the tag, and with it whether the field is optional, has no part in it.
\<close>

theorem marshal_methods_populate_all:
  "JSONMarshalMethod L mtyp ps =
     ''// MarshalJSON implements json.Marshaler.'' @ nl @
     ''func (x *'' @ OrigName mtyp @ '') MarshalJSON() ([]byte, error) {'' @ nl @
     tabs 1 @ TypeDecl L mtyp ps @ nl @ nl @
     tabs 1 @ ''return json.Marshal(&'' @ Name mtyp @ ''{'' @
     concat (map (\<lambda>mf. nl @ tabs 3 @ var_name (mf_field mf) @ '': '' @
                     conversionExpr L mtyp ps (''x.'' @ var_name (mf_field mf))
                       (var_type (mf_field mf)) (mf_typ mf) @ '','')
                 (Fields mtyp)) @
     nl @ tabs 1 @ ''})'' @ nl @ ''}''
   \<and> YAMLMarshalMethod L mtyp ps =
     ''// MarshalYAML implements yaml.Marshaler'' @ nl @
     ''func (x *'' @ OrigName mtyp @ '') MarshalYAML() (interface{}, error) {'' @ nl @
     tabs 1 @ TypeDecl L mtyp ps @ nl @ nl @
     tabs 1 @ ''return &'' @ Name mtyp @ ''{'' @
     concat (map (\<lambda>mf. nl @ tabs 3 @ var_name (mf_field mf) @ '': '' @
                     conversionExpr L mtyp ps (''x.'' @ var_name (mf_field mf))
                       (var_type (mf_field mf)) (mf_typ mf) @ '','')
                 (Fields mtyp)) @
     nl @ tabs 1 @ ''}, nil'' @ nl @ ''}''
   \<and> (obj_pkg (orig mtyp') = obj_pkg (orig mtyp) \<and> mf_field mf' = mf_field mf \<and> mf_typ mf' = mf_typ mf
        \<longrightarrow> Convert L mtyp' ps mf' v = Convert L mtyp ps mf v)"
proof (intro conjI impI)
  show "Convert L mtyp' ps mf' v = Convert L mtyp ps mf v"
    if "obj_pkg (orig mtyp') = obj_pkg (orig mtyp) \<and> mf_field mf' = mf_field mf \<and> mf_typ mf' = mf_typ mf"
  proof -
    from that have ts: "typeString L mtyp' ps = typeString L mtyp ps"
      by (simp add: typeString_def fun_eq_iff)
    from that have e: "mf_field mf' = mf_field mf" "mf_typ mf' = mf_typ mf"
      by simp_all
    show ?thesis
      unfolding Convert_def conversionExpr_def ts e ..
  qed
qed (simp_all add: JSONMarshalMethod_def YAMLMarshalMethod_def Convert_def field_Name_def Let_def)

text \<open>
  The field \<^verbatim>\<open>Note\<close> of \<^verbatim>\<open>Item\<close> is optional; without its tag it is required, and it is
  filled by the same expression.
\<close>

theorem marshal_methods_populate_all_witness:
  "isOptional sampleLib (Fields (fst (newMarshalerType Item)) ! 3) ''json''
   \<and> \<not> isOptional sampleLib ((Fields (fst (newMarshalerType Item)) ! 3)\<lparr>mf_tag := ''''\<rparr>) ''json''
   \<and> Convert sampleLib (fst (newMarshalerType Item)) example_pkgs
        ((Fields (fst (newMarshalerType Item)) ! 3)\<lparr>mf_tag := ''''\<rparr>) ''x'' = ''&x.Note''
   \<and> Convert sampleLib (fst (newMarshalerType Item)) example_pkgs
        (Fields (fst (newMarshalerType Item)) ! 3) ''x'' = ''&x.Note''"
proof -
  let ?m = "fst (newMarshalerType Item)"
  let ?mf = "Fields ?m ! 3"
  have "Convert sampleLib ?m example_pkgs (?mf\<lparr>mf_tag := ''''\<rparr>) ''x''
      = Convert sampleLib ?m example_pkgs ?mf ''x''"
    using marshal_methods_populate_all[where mtyp = ?m and mtyp' = ?m and mf = ?mf
        and mf' = "?mf\<lparr>mf_tag := ''''\<rparr>" and L = sampleLib and ps = example_pkgs and v = "''x''"]
    by simp
  moreover have "Convert sampleLib ?m example_pkgs ?mf ''x'' = ''&x.Note''"
    by code_simp
  moreover have "isOptional sampleLib ?mf ''json''"
    by code_simp
  moreover have "\<not> isOptional sampleLib (?mf\<lparr>mf_tag := ''''\<rparr>) ''json''"
    by code_simp
  ultimately show ?thesis by simp
qed

end
